theory Spec2Isabelle
  imports Main "HOL-Library.Word"
begin

unbundle bit_operations_syntax

section \<open>A GELF client over a packet connection\<close>

text \<open>
  The repository holds three versions of one Go package, \<^verbatim>\<open>graylog\<close>: a client whose
  \<^verbatim>\<open>Write\<close> trims a newline-terminated line, compresses it with gzip, cuts the compressed
  bytes into chunks of at most 1420 bytes and sends each chunk, framed, over a
  \<^verbatim>\<open>net.PacketConn\<close>. The first version (\<^verbatim>\<open>reduce.go\<close>, first document) allocates a
  buffer and a compressor in every call; the second (\<^verbatim>\<open>reduce.go\<close>, second document)
  keeps one buffer and one compressor in the client, under a mutex; the third keeps
  them in a \<^verbatim>\<open>sync.Pool\<close> of messages.

  Go's standard library is not part of the repository. The pieces of it that are small
  and pure (\<^verbatim>\<open>bytes.HasSuffix\<close>, \<^verbatim>\<open>bytes.TrimFunc\<close>, \<^verbatim>\<open>unicode.IsSpace\<close>,
  \<^verbatim>\<open>utf8.DecodeRune\<close>, \<^verbatim>\<open>bytes.Buffer\<close>, \<^verbatim>\<open>binary.LittleEndian\<close>) are written out
  below, following the library's own code. The gzip compressor, the packet connection
  and the random source are parameters of the model.
\<close>

type_synonym byte = "8 word"
type_synonym rune = int

subsection \<open>\<^verbatim>\<open>unicode/utf8\<close> and \<^verbatim>\<open>unicode.IsSpace\<close>\<close>

definition RuneError :: rune where
  "RuneError = 0xFFFD"

definition RuneSelf :: rune where
  "RuneSelf = 0x80"

definition UTFMax :: nat where
  "UTFMax = 4"

text \<open>
  \<^verbatim>\<open>first\<close> is the library's table of information about the first byte of a UTF-8
  sequence: \<^verbatim>\<open>0xF0\<close> for ASCII (\<^verbatim>\<open>as\<close>), \<^verbatim>\<open>0xF1\<close> for an invalid first byte (\<^verbatim>\<open>xx\<close>),
  and otherwise the index of the accept range in the high nibble and the size of the
  sequence in the low one.
\<close>

definition first :: "byte \<Rightarrow> byte" where
  "first b =
     (if b < 0x80 then 0xF0
      else if b < 0xC2 then 0xF1
      else if b < 0xE0 then 0x02
      else if b = 0xE0 then 0x13
      else if b < 0xED then 0x03
      else if b = 0xED then 0x23
      else if b < 0xF0 then 0x03
      else if b = 0xF0 then 0x34
      else if b < 0xF4 then 0x04
      else if b = 0xF4 then 0x44
      else 0xF1)"

definition acceptRanges :: "nat \<Rightarrow> byte \<times> byte" where
  "acceptRanges k =
     (if k = 0 then (0x80, 0xBF)
      else if k = 1 then (0xA0, 0xBF)
      else if k = 2 then (0x80, 0x9F)
      else if k = 3 then (0x90, 0xBF)
      else if k = 4 then (0x80, 0x8F)
      else (0, 0))"

definition DecodeRune :: "byte list \<Rightarrow> rune \<times> nat" where
  "DecodeRune p =
     (let n = length p in
      if n < 1 then (RuneError, 0)
      else
        let p0 = p ! 0; x = first p0 in
        if x \<ge> 0xF0 then ((if x = 0xF0 then uint p0 else RuneError), 1)
        else
          let sz = unat (x AND 7);
              lo = fst (acceptRanges (unat (drop_bit 4 x)));
              hi = snd (acceptRanges (unat (drop_bit 4 x)))
          in
          if n < sz then (RuneError, 1)
          else
            let b1 = p ! 1 in
            if b1 < lo \<or> hi < b1 then (RuneError, 1)
            else if sz \<le> 2 then
              (push_bit 6 (uint (p0 AND 0x1F)) OR uint (b1 AND 0x3F), 2)
            else
              let b2 = p ! 2 in
              if b2 < 0x80 \<or> 0xBF < b2 then (RuneError, 1)
              else if sz \<le> 3 then
                (push_bit 12 (uint (p0 AND 0x0F)) OR push_bit 6 (uint (b1 AND 0x3F))
                   OR uint (b2 AND 0x3F), 3)
              else
                let b3 = p ! 3 in
                if b3 < 0x80 \<or> 0xBF < b3 then (RuneError, 1)
                else
                  (push_bit 18 (uint (p0 AND 0x07)) OR push_bit 12 (uint (b1 AND 0x3F))
                     OR push_bit 6 (uint (b2 AND 0x3F)) OR uint (b3 AND 0x3F), 4))"

definition RuneStart :: "byte \<Rightarrow> bool" where
  "RuneStart b = (b AND 0xC0 \<noteq> 0x80)"

text \<open>
  \<^verbatim>\<open>DecodeLastRune\<close> walks back from the end over at most three continuation bytes to
  a byte that can start a rune, decodes from there, and accepts the rune only if it
  ends exactly at the end of the slice. \<^verbatim>\<open>backup p start lim\<close> is its loop
  \<^verbatim>\<open>for start--; start >= lim; start-- { if RuneStart(p[start]) { break } }\<close>, on
  integers since \<^verbatim>\<open>start\<close> may leave the loop at \<^verbatim>\<open>-1\<close>.
\<close>

function backup :: "byte list \<Rightarrow> int \<Rightarrow> int \<Rightarrow> int" where
  "backup p start lim =
     (if start \<ge> lim then
        (if RuneStart (p ! nat start) then start else backup p (start - 1) lim)
      else start)"
  by pat_completeness auto
termination
  by (relation "measure (\<lambda>(p, start, lim). nat (start - lim + 1))") auto

declare backup.simps [simp del]

definition DecodeLastRune :: "byte list \<Rightarrow> rune \<times> nat" where
  "DecodeLastRune p =
     (let end = length p in
      if end = 0 then (RuneError, 0)
      else
        let start = int end - 1; r = uint (p ! nat start) in
        if r < RuneSelf then (r, 1)
        else
          let lim = int end - int UTFMax;
              lim = (if lim < 0 then 0 else lim);
              start = backup p (start - 1) lim;
              start = (if start < 0 then 0 else start);
              (r, size) = DecodeRune (drop (nat start) p)
          in if start + int size \<noteq> int end then (RuneError, 1) else (r, size))"

text \<open>
  \<^verbatim>\<open>unicode.IsSpace\<close>: in Latin-1 the eight characters of the switch; beyond it, the
  \<^verbatim>\<open>White_Space\<close> range table.
\<close>

definition MaxLatin1 :: rune where
  "MaxLatin1 = 0xFF"

definition White_Space_excluding_Latin :: "rune \<Rightarrow> bool" where
  "White_Space_excluding_Latin r =
     (r = 0x1680 \<or> (0x2000 \<le> r \<and> r \<le> 0x200A) \<or> (0x2028 \<le> r \<and> r \<le> 0x2029)
      \<or> r = 0x202F \<or> r = 0x205F \<or> r = 0x3000)"

definition IsSpace :: "rune \<Rightarrow> bool" where
  "IsSpace r =
     (if 0 \<le> r \<and> r \<le> MaxLatin1 then
        (r = 0x09 \<or> r = 0x0A \<or> r = 0x0B \<or> r = 0x0C \<or> r = 0x0D \<or> r = 0x20
         \<or> r = 0x85 \<or> r = 0xA0)
      else White_Space_excluding_Latin r)"

subsection \<open>\<^verbatim>\<open>bytes.HasSuffix\<close> and \<^verbatim>\<open>bytes.TrimFunc\<close>\<close>

definition HasSuffix :: "byte list \<Rightarrow> byte list \<Rightarrow> bool" where
  "HasSuffix s suffix =
     (length s \<ge> length suffix \<and> drop (length s - length suffix) s = suffix)"

lemma DecodeRune_size_pos: "p \<noteq> [] \<Longrightarrow> 0 < snd (DecodeRune p)"
  by (simp add: DecodeRune_def Let_def)

lemma backup_le: "backup p start lim \<le> start"
proof (induction p start lim rule: backup.induct)
  case (1 p start lim)
  show ?case
  proof (cases "start \<ge> lim \<and> \<not> RuneStart (p ! nat start)")
    case True
    with 1 have "backup p (start - 1) lim \<le> start - 1"
      by simp
    with True show ?thesis
      by (subst backup.simps) simp
  next
    case False
    then show ?thesis
      by (subst backup.simps) auto
  qed
qed

lemma DecodeLastRune_size_pos:
  assumes "p \<noteq> []"
  shows "0 < snd (DecodeLastRune p)"
proof (cases "uint (p ! nat (int (length p) - 1)) < RuneSelf")
  case True
  with assms show ?thesis
    by (simp add: DecodeLastRune_def Let_def)
next
  case False
  define lim0 where "lim0 = int (length p) - int UTFMax"
  define lim where "lim = (if lim0 < 0 then 0 else lim0)"
  define start0 where "start0 = backup p (int (length p) - 1 - 1) lim"
  define start where "start = (if start0 < 0 then 0 else start0)"
  define d where "d = DecodeRune (drop (nat start) p)"
  have eq: "DecodeLastRune p =
      (if start + int (snd d) \<noteq> int (length p) then (RuneError, 1) else (fst d, snd d))"
    using assms False
    by (simp add: DecodeLastRune_def Let_def lim0_def lim_def start0_def start_def d_def
        split: prod.splits)
  have "start0 \<le> int (length p) - 2"
    using backup_le [of p "int (length p) - 1 - 1" lim] by (simp add: start0_def)
  with assms have "nat start < length p"
    by (cases p) (auto simp: start_def)
  then have "0 < snd d"
    unfolding d_def by (intro DecodeRune_size_pos) simp
  with eq show ?thesis
    by simp
qed

text \<open>
  \<^verbatim>\<open>indexFunc\<close> is the index of the first rune of \<^verbatim>\<open>s\<close> at or after \<^verbatim>\<open>start\<close> on which
  \<^verbatim>\<open>f\<close> gives \<^verbatim>\<open>truth\<close>; \<^verbatim>\<open>None\<close> stands for the library's \<^verbatim>\<open>-1\<close>. The library's
  loop starts at 0; the loop variable is an argument here.
\<close>

function indexFunc :: "byte list \<Rightarrow> (rune \<Rightarrow> bool) \<Rightarrow> bool \<Rightarrow> nat \<Rightarrow> nat option" where
  "indexFunc s f truth start =
     (if start < length s then
        (let r0 = uint (s ! start);
             d = (if r0 \<ge> RuneSelf then DecodeRune (drop start s) else (r0, 1));
             r = fst d; wid = snd d
         in if f r = truth then Some start else indexFunc s f truth (start + wid))
      else None)"
  by pat_completeness auto
termination
proof (relation "measure (\<lambda>(s, f, truth, start). length s - start)")
  show "wf (measure (\<lambda>(s, f, truth, start). length s - start))"
    by simp
next
  fix s :: "byte list" and f :: "rune \<Rightarrow> bool" and truth :: bool and start :: nat
    and r0 :: int and d :: "rune \<times> nat" and r :: rune and wid :: nat
  assume lt: "start < length s"
    and d: "d = (if RuneSelf \<le> r0 then DecodeRune (drop start s) else (r0, 1))"
    and wid: "wid = snd d"
  from lt have "drop start s \<noteq> []"
    by simp
  then have "0 < snd (DecodeRune (drop start s))"
    by (rule DecodeRune_size_pos)
  with d wid have "0 < wid"
    by (simp split: if_splits)
  with lt show "((s, f, truth, start + wid), (s, f, truth, start))
      \<in> measure (\<lambda>(s, f, truth, start). length s - start)"
    by simp
qed

declare indexFunc.simps [simp del]

text \<open>
  \<^verbatim>\<open>lastIndexFunc\<close> scans backwards from \<^verbatim>\<open>i = len(s)\<close>. The library's loop reads
  only \<^verbatim>\<open>s[i-1]\<close> and \<^verbatim>\<open>s[0:i]\<close>; here the argument is that prefix \<^verbatim>\<open>s[0:i]\<close>, and
  \<^verbatim>\<open>i\<close> is its length.
\<close>

function lastIndexFunc :: "byte list \<Rightarrow> (rune \<Rightarrow> bool) \<Rightarrow> bool \<Rightarrow> nat option" where
  "lastIndexFunc s f truth =
     (let i = length s in
      if i > 0 then
        (let r0 = uint (s ! (i - 1));
             d = (if r0 \<ge> RuneSelf then DecodeLastRune s else (r0, 1));
             r = fst d; size = snd d;
             i' = i - size
         in if f r = truth then Some i' else lastIndexFunc (take i' s) f truth)
      else None)"
  by pat_completeness auto
termination
proof (relation "measure (\<lambda>(s, f, truth). length s)")
  show "wf (measure (\<lambda>(s, f, truth). length s))"
    by simp
next
  fix s :: "byte list" and f :: "rune \<Rightarrow> bool" and truth :: bool and i :: nat
    and r0 :: int and d :: "rune \<times> nat" and r :: rune and size :: nat and i' :: nat
  assume i: "i = length s" and pos: "0 < i"
    and d: "d = (if RuneSelf \<le> r0 then DecodeLastRune s else (r0, 1))"
    and sz: "size = snd d"
    and i': "i' = i - size"
  from i pos have "s \<noteq> []"
    by auto
  then have "0 < snd (DecodeLastRune s)"
    by (rule DecodeLastRune_size_pos)
  with d sz have "0 < size"
    by (simp split: if_splits)
  with i pos i' show "((take i' s, f, truth), (s, f, truth)) \<in> measure (\<lambda>(s, f, truth). length s)"
    by simp
qed

declare lastIndexFunc.simps [simp del]

definition TrimLeftFunc :: "byte list \<Rightarrow> (rune \<Rightarrow> bool) \<Rightarrow> byte list" where
  "TrimLeftFunc s f =
     (case indexFunc s f False 0 of
        None \<Rightarrow> []
      | Some i \<Rightarrow> drop i s)"

definition TrimRightFunc :: "byte list \<Rightarrow> (rune \<Rightarrow> bool) \<Rightarrow> byte list" where
  "TrimRightFunc s f =
     (case lastIndexFunc s f False of
        None \<Rightarrow> take 0 s
      | Some i \<Rightarrow>
          if uint (s ! i) \<ge> RuneSelf then take (i + snd (DecodeRune (drop i s))) s
          else take (i + 1) s)"

definition TrimFunc :: "byte list \<Rightarrow> (rune \<Rightarrow> bool) \<Rightarrow> byte list" where
  "TrimFunc s f = TrimRightFunc (TrimLeftFunc s f) f"

text \<open>
  \<^verbatim>\<open>bytes.Runes\<close>: the runes of \<open>s\<close> read as UTF-8, a byte that starts no valid sequence
  counting as \<^verbatim>\<open>RuneError\<close>. \<^verbatim>\<open>Write\<close> does not call it; it says which inputs consist of
  whitespace only.
\<close>

function Runes :: "byte list \<Rightarrow> rune list" where
  "Runes s = (if s = [] then [] else fst (DecodeRune s) # Runes (drop (snd (DecodeRune s)) s))"
  by pat_completeness auto
termination
proof (relation "measure length")
  show "wf (measure length)"
    by simp
next
  fix s :: "byte list"
  assume "s \<noteq> []"
  then show "(drop (snd (DecodeRune s)) s, s) \<in> measure length"
    using DecodeRune_size_pos [of s] by simp
qed

declare Runes.simps [simp del]

subsection \<open>Errors and results\<close>

text \<open>
  A Go \<^verbatim>\<open>error\<close> is an optional value of the datatype below, \<^verbatim>\<open>nil\<close> being \<^term>\<open>None\<close>. The
  errors the package makes with \<^verbatim>\<open>fmt.Errorf\<close> are constructors that keep what the
  format string prints; \<^verbatim>\<open>External\<close> is an error of the compressor, the connection or
  the random source.
\<close>

datatype error =
    EOF
  | ErrMissingNewline
  | External string
  | ErrNoConnection
  | ErrCompressionLevel int
  | ErrUniqueID error
  | ErrExceedsMaxSize nat nat
  | ErrReading error
  | ErrWriting error

text \<open>
  What a call of \<^verbatim>\<open>Write\<close> does: it returns the pair \<^verbatim>\<open>(int, error)\<close>, or it panics (a
  method called through a nil pointer or a nil interface).
\<close>

datatype result = Return int "error option" | Panic

text \<open>The test \<^verbatim>\<open>err != nil && err != io.EOF\<close>, giving the error when it holds.\<close>

definition failure :: "error option \<Rightarrow> error option" where
  "failure err = (case err of None \<Rightarrow> None | Some e \<Rightarrow> if e = EOF then None else Some e)"

subsection \<open>The parameters: compressor, connection\<close>

text \<open>
  A \<^verbatim>\<open>gzip.Writer\<close> is a state of some type \<open>'z\<close> and four operations.
  \<^verbatim>\<open>NewWriterLevel\<close> gives no writer (\<^verbatim>\<open>nil\<close>) when it returns an error. \<^verbatim>\<open>Write\<close> gives
  the next state, the bytes it writes to the sink the writer is bound to, and its
  results \<^verbatim>\<open>(n, err)\<close>. \<^verbatim>\<open>Close\<close> gives the next state and the bytes it writes to the
  sink (its error is dropped by every caller in the package). \<^verbatim>\<open>Reset\<close> gives the
  state of the writer bound anew.
\<close>

record 'z gzip =
  NewWriterLevel :: "int \<Rightarrow> 'z option"
  gzWrite :: "'z \<Rightarrow> byte list \<Rightarrow> 'z \<times> byte list \<times> int \<times> error option"
  gzClose :: "'z \<Rightarrow> 'z \<times> byte list"
  gzReset :: "'z \<Rightarrow> 'z"

definition NoCompression :: int where
  "NoCompression = 0"

definition BestSpeed :: int where
  "BestSpeed = 1"

definition BestCompression :: int where
  "BestCompression = 9"

definition DefaultCompression :: int where
  "DefaultCompression = - 1"

text \<open>
  A \<^verbatim>\<open>net.PacketConn\<close> is what its \<^verbatim>\<open>WriteTo\<close> answers to a packet and an address,
  given the packets handed to it before: \<^verbatim>\<open>nil\<close> (\<^term>\<open>None\<close>) when it takes the packet,
  an error otherwise. The list of the packets handed to the connection so far is
  threaded through the model; it is the record of what was put on the wire.
\<close>

type_synonym addr = string
type_synonym packetConn = "byte list list \<Rightarrow> byte list \<Rightarrow> addr option \<Rightarrow> error option"

subsection \<open>\<^verbatim>\<open>bytes.Buffer\<close> and \<^verbatim>\<open>binary.LittleEndian\<close>\<close>

text \<open>
  A buffer is the list of its unread bytes. \<^verbatim>\<open>Read\<close> into a slice of length \<open>m\<close> gives
  the bytes copied, the error and the buffer left: \<^verbatim>\<open>io.EOF\<close> on an empty buffer
  (unless \<open>m\<close> is 0), else the first \<open>m\<close> bytes at most.
\<close>

definition Buffer_Read :: "byte list \<Rightarrow> nat \<Rightarrow> byte list \<times> error option \<times> byte list" where
  "Buffer_Read b m =
     (if b = [] then (if m = 0 then ([], None, []) else ([], Some EOF, []))
      else (take m b, None, drop m b))"

definition PutUint32 :: "32 word \<Rightarrow> byte list" where
  "PutUint32 v = [ucast v, ucast (drop_bit 8 v), ucast (drop_bit 16 v), ucast (drop_bit 24 v)]"

definition Uint32 :: "byte list \<Rightarrow> 32 word" where
  "Uint32 b = ucast (b ! 0) OR push_bit 8 (ucast (b ! 1)) OR push_bit 16 (ucast (b ! 2))
     OR push_bit 24 (ucast (b ! 3))"

subsection \<open>The constants\<close>

definition mtuSize :: nat where
  "mtuSize = 1500"

definition maxChunkSize :: nat where
  "maxChunkSize = 1420"

definition maxChunkCount :: nat where
  "maxChunkCount = 128"

definition gelfMagicByteA :: byte where
  "gelfMagicByteA = 0x1e"

definition gelfMagicByteB :: byte where
  "gelfMagicByteB = 0x0f"

subsection \<open>The client, \<^verbatim>\<open>New\<close> and \<^verbatim>\<open>messageID\<close>\<close>

text \<open>
  The fields the three versions of \<^verbatim>\<open>Client\<close> share are the record \<open>ClientCore\<close>; each
  version extends it. The mutex \<^verbatim>\<open>countMux\<close> has no field: the model runs one call at
  a time. \<^verbatim>\<open>[4]byte\<close> is a datatype of four bytes, so that no list of another length is
  an instance tag.
\<close>

datatype byte4 = Byte4 byte byte byte byte

fun bytes4 :: "byte4 \<Rightarrow> byte list" where
  "bytes4 (Byte4 a b c d) = [a, b, c, d]"

record ClientCore =
  instanceID :: byte4
  addr :: "addr option"
  conn :: "packetConn option"
  messageCount :: "32 word"

record Client = ClientCore +
  compressionLevel :: int

record Config =
  CompressionLevel :: int
  ServerAddr :: "addr option"
  ClientPacketConn :: "packetConn option"

text \<open>
  \<^verbatim>\<open>New\<close> (first version). The second argument is what \<^verbatim>\<open>rand.Read\<close> does on the four
  bytes of the instance tag: an error, or the bytes it fills in.
\<close>

definition New :: "Config \<Rightarrow> error + byte4 \<Rightarrow> error + Client" where
  "New c rnd =
     (if ClientPacketConn c = None then Inl ErrNoConnection
      else if CompressionLevel c \<noteq> NoCompression \<and> CompressionLevel c \<noteq> DefaultCompression
          \<and> (CompressionLevel c > BestCompression \<or> CompressionLevel c < BestSpeed)
        then Inl (ErrCompressionLevel (CompressionLevel c))
      else
        (case rnd of
           Inl err \<Rightarrow> Inl (ErrUniqueID err)
         | Inr tag \<Rightarrow>
             Inr \<lparr>instanceID = tag, addr = ServerAddr c, conn = ClientPacketConn c,
                  messageCount = 0, compressionLevel = CompressionLevel c\<rparr>))"

text \<open>
  \<^verbatim>\<open>messageID\<close>, the same in the three versions: the instance tag, then the counter
  after its increment, little-endian. It returns the identifier and the client with
  the counter advanced.
\<close>

definition messageID :: "'a ClientCore_scheme \<Rightarrow> byte list \<times> 'a ClientCore_scheme" where
  "messageID gl =
     (let gl' = gl\<lparr>messageCount := messageCount gl + 1\<rparr>;
          count = PutUint32 (messageCount gl')
      in (bytes4 (instanceID gl) @ count, gl'))"

subsection \<open>Sending the chunks\<close>

text \<open>
  The loop \<^verbatim>\<open>for i := 0; i < count; i++\<close> of \<^verbatim>\<open>Write\<close>, the same in the three versions.
  Its arguments are the connection and the address, the message identifier, \<open>count\<close>,
  the loop variable \<open>i\<close>, the buffer and the packets handed to the connection so far.
  It gives \<^term>\<open>None\<close> when the loop ends and \<^verbatim>\<open>Write\<close> goes on to \<^verbatim>\<open>return n, nil\<close>, or
  the result of the \<^verbatim>\<open>return\<close> (or panic) that leaves the loop; with it the buffer
  and the packets handed to the connection.
\<close>

function sendChunks ::
  "packetConn option \<Rightarrow> addr option \<Rightarrow> byte list \<Rightarrow> nat \<Rightarrow> nat \<Rightarrow> byte list \<Rightarrow> byte list list
     \<Rightarrow> result option \<times> byte list \<times> byte list list" where
  "sendChunks c a ident count i b sent =
     (if i < count then
        (let packet = [gelfMagicByteA, gelfMagicByteB];
             packet = packet @ ident;
             packet = packet @ [of_nat i, of_nat count];
             rd = Buffer_Read b maxChunkSize;
             chunk = fst rd; err = fst (snd rd); b' = snd (snd rd)
         in
         case failure err of
           Some e \<Rightarrow> (Some (Return 0 (Some (ErrReading e))), b', sent)
         | None \<Rightarrow>
             (let packet = packet @ chunk in
              case c of
                None \<Rightarrow> (Some Panic, b', sent)
              | Some writeTo \<Rightarrow>
                  (case writeTo sent packet a of
                     Some e \<Rightarrow> (Some (Return 0 (Some (ErrWriting e))), b', sent @ [packet])
                   | None \<Rightarrow> sendChunks c a ident count (i + 1) b' (sent @ [packet]))))
      else (None, b, sent))"
  by pat_completeness auto
termination
  by (relation "measure (\<lambda>(c, a, ident, count, i, b, sent). count - i)") auto

declare sendChunks.simps [simp del]

text \<open>
  The number of chunks for \<open>len\<close> compressed bytes, as \<^verbatim>\<open>Write\<close> computes it in the three
  versions: \<^verbatim>\<open>count, rem := length/maxChunkSize, length%maxChunkSize\<close>, then
  \<^verbatim>\<open>if rem > 0 { count++ }\<close>.
\<close>

definition chunkCount :: "nat \<Rightarrow> nat" where
  "chunkCount len =
     (let count = len div maxChunkSize; rem = len mod maxChunkSize
      in if rem > 0 then count + 1 else count)"

subsection \<open>\<^verbatim>\<open>Write\<close>, first version\<close>

text \<open>
  The buffer and the compressor are made in the call. The result comes with the client
  (its counter may have advanced) and the packets handed to the connection.
\<close>

definition Write ::
  "'z gzip \<Rightarrow> Client \<Rightarrow> byte list list \<Rightarrow> byte list \<Rightarrow> result \<times> Client \<times> byte list list" where
  "Write G gl sent p =
     (if length p = 0 then (Return 0 None, gl, sent)
      else if \<not> HasSuffix p [0x0A] then (Return 0 (Some ErrMissingNewline), gl, sent)
      else
        (case NewWriterLevel G (compressionLevel gl) of
           None \<Rightarrow> (Panic, gl, sent)
         | Some zip0 \<Rightarrow>
             (let w = gzWrite G zip0 (TrimFunc p IsSpace);
                  zip1 = fst w; b = fst (snd w); n = fst (snd (snd w)); err = snd (snd (snd w));
                  b = b @ snd (gzClose G zip1)
              in
              case failure err of
                Some e \<Rightarrow> (Return 0 (Some e), gl, sent)
              | None \<Rightarrow>
                  (let len = length b;
                       count = chunkCount len
                   in
                   if count > maxChunkCount
                   then (Return 0 (Some (ErrExceedsMaxSize len (maxChunkCount * maxChunkSize))),
                         gl, sent)
                   else
                     (let m = messageID gl; ident = fst m; gl = snd m;
                          l = sendChunks (conn gl) (addr gl) ident count 0 b sent
                      in
                      case fst l of
                        Some r \<Rightarrow> (r, gl, snd (snd l))
                      | None \<Rightarrow> (Return n None, gl, snd (snd l)))))))"

subsection \<open>\<^verbatim>\<open>Write\<close>, second version: one buffer and one compressor under a mutex\<close>

text \<open>
  The client keeps the compressor \<^verbatim>\<open>zip\<close> and the buffer \<^verbatim>\<open>buf\<close> it writes to (fields
  \<open>gl_zip\<close> and \<open>gl_buf\<close>). The mutex \<^verbatim>\<open>writeMux\<close> has no field: the model runs one call
  at a time.
\<close>

record 'z ClientMux = ClientCore +
  gl_zip :: "'z option"
  gl_buf :: "byte list"

definition New_mux :: "'z gzip \<Rightarrow> Config \<Rightarrow> error + byte4 \<Rightarrow> error + 'z ClientMux" where
  "New_mux G c rnd =
     (if ClientPacketConn c = None then Inl ErrNoConnection
      else if CompressionLevel c \<noteq> NoCompression \<and> CompressionLevel c \<noteq> DefaultCompression
          \<and> (CompressionLevel c > BestCompression \<or> CompressionLevel c < BestSpeed)
        then Inl (ErrCompressionLevel (CompressionLevel c))
      else
        (case rnd of
           Inl err \<Rightarrow> Inl (ErrUniqueID err)
         | Inr tag \<Rightarrow>
             Inr \<lparr>instanceID = tag, addr = ServerAddr c, conn = ClientPacketConn c,
                  messageCount = 0,
                  gl_zip = NewWriterLevel G (CompressionLevel c), gl_buf = []\<rparr>))"

text \<open>
  The body of \<^verbatim>\<open>Write\<close> after the \<^verbatim>\<open>defer\<close> statement. The compressor writes to the
  client's buffer, after whatever the buffer holds.
\<close>

definition Write_mux_body ::
  "'z gzip \<Rightarrow> 'z ClientMux \<Rightarrow> byte list list \<Rightarrow> byte list
     \<Rightarrow> result \<times> 'z ClientMux \<times> byte list list" where
  "Write_mux_body G gl sent p =
     (case gl_zip gl of
        None \<Rightarrow> (Panic, gl, sent)
      | Some zip0 \<Rightarrow>
          (let w = gzWrite G zip0 (TrimFunc p IsSpace);
               n = fst (snd (snd w)); err = snd (snd (snd w));
               gl = gl\<lparr>gl_zip := Some (fst w), gl_buf := gl_buf gl @ fst (snd w)\<rparr>;
               c = gzClose G (fst w);
               gl = gl\<lparr>gl_zip := Some (fst c), gl_buf := gl_buf gl @ snd c\<rparr>
           in
           case failure err of
             Some e \<Rightarrow> (Return 0 (Some e), gl, sent)
           | None \<Rightarrow>
               (let len = length (gl_buf gl);
                    count = chunkCount len
                in
                if count > maxChunkCount
                then (Return 0 (Some (ErrExceedsMaxSize len (maxChunkCount * maxChunkSize))),
                      gl, sent)
                else
                  (let m = messageID gl; ident = fst m; gl = snd m;
                       l = sendChunks (conn gl) (addr gl) ident count 0 (gl_buf gl) sent;
                       gl = gl\<lparr>gl_buf := fst (snd l)\<rparr>
                   in
                   case fst l of
                     Some r \<Rightarrow> (r, gl, snd (snd l))
                   | None \<Rightarrow> (Return n None, gl, snd (snd l))))))"

text \<open>
  The deferred function: \<^verbatim>\<open>gl.buf.Reset(); gl.zip.Reset(&gl.buf); gl.writeMux.Unlock()\<close>.
  It runs on every way out of the body, a panic included; \<^verbatim>\<open>Reset\<close> through a nil
  \<^verbatim>\<open>zip\<close> panics.
\<close>

definition Write_mux_deferred ::
  "'z gzip \<Rightarrow> result \<times> 'z ClientMux \<times> byte list list \<Rightarrow> result \<times> 'z ClientMux \<times> byte list list" where
  "Write_mux_deferred G r =
     (let res = fst r; gl = fst (snd r); sent = snd (snd r);
          gl = gl\<lparr>gl_buf := []\<rparr>
      in
      case gl_zip gl of
        None \<Rightarrow> (Panic, gl, sent)
      | Some z \<Rightarrow> (res, gl\<lparr>gl_zip := Some (gzReset G z)\<rparr>, sent))"

definition Write_mux ::
  "'z gzip \<Rightarrow> 'z ClientMux \<Rightarrow> byte list list \<Rightarrow> byte list
     \<Rightarrow> result \<times> 'z ClientMux \<times> byte list list" where
  "Write_mux G gl sent p =
     (if length p = 0 then (Return 0 None, gl, sent)
      else if \<not> HasSuffix p [0x0A] then (Return 0 (Some ErrMissingNewline), gl, sent)
      else Write_mux_deferred G (Write_mux_body G gl sent p))"

subsection \<open>\<^verbatim>\<open>Write\<close>, third version: a pool of messages\<close>

text \<open>
  A \<^verbatim>\<open>message\<close> holds a buffer, the compressor bound to it, the identifier, and the
  connection and address of the client.
\<close>

record 'z message =
  msg_buf :: "byte list"
  msg_zip :: "'z option"
  msg_id :: "byte list"
  msg_conn :: "packetConn option"
  msg_addr :: "addr option"

text \<open>
  The \<^verbatim>\<open>sync.Pool\<close> is the list of the messages it holds, and the compression level its
  \<^verbatim>\<open>New\<close> function has captured. \<^verbatim>\<open>Get\<close> takes any message of the pool, or makes one
  with \<^verbatim>\<open>New\<close>: the argument \<open>pick\<close> says which (an index in the pool, or any other
  number for a new message).
\<close>

record 'z ClientPool = ClientCore +
  msgPool :: "'z message list"
  msgPool_level :: int

definition New_pool :: "Config \<Rightarrow> error + byte4 \<Rightarrow> error + 'z ClientPool" where
  "New_pool c rnd =
     (if ClientPacketConn c = None then Inl ErrNoConnection
      else if CompressionLevel c \<noteq> NoCompression \<and> CompressionLevel c \<noteq> DefaultCompression
          \<and> (CompressionLevel c > BestCompression \<or> CompressionLevel c < BestSpeed)
        then Inl (ErrCompressionLevel (CompressionLevel c))
      else
        (case rnd of
           Inl err \<Rightarrow> Inl (ErrUniqueID err)
         | Inr tag \<Rightarrow>
             Inr \<lparr>instanceID = tag, addr = ServerAddr c, conn = ClientPacketConn c,
                  messageCount = 0,
                  msgPool = [], msgPool_level = CompressionLevel c\<rparr>))"

definition msgPool_New :: "'z gzip \<Rightarrow> int \<Rightarrow> 'z message" where
  "msgPool_New G level =
     \<lparr>msg_buf = [], msg_zip = NewWriterLevel G level, msg_id = replicate 8 0,
      msg_conn = None, msg_addr = None\<rparr>"

definition msgPool_Get :: "'z gzip \<Rightarrow> 'z ClientPool \<Rightarrow> nat \<Rightarrow> 'z message \<times> 'z ClientPool" where
  "msgPool_Get G gl pick =
     (if pick < length (msgPool gl)
      then (msgPool gl ! pick,
            gl\<lparr>msgPool := take pick (msgPool gl) @ drop (pick + 1) (msgPool gl)\<rparr>)
      else (msgPool_New G (msgPool_level gl), gl))"

definition msgPool_Put :: "'z ClientPool \<Rightarrow> 'z message \<Rightarrow> 'z ClientPool" where
  "msgPool_Put gl msg = gl\<lparr>msgPool := msg # msgPool gl\<rparr>"

definition newMessage :: "'z gzip \<Rightarrow> 'z ClientPool \<Rightarrow> nat \<Rightarrow> 'z message \<times> 'z ClientPool" where
  "newMessage G gl pick =
     (let g = msgPool_Get G gl pick; msg = fst g; gl = snd g;
          m = messageID gl; gl = snd m;
          msg = msg\<lparr>msg_id := fst m\<rparr>;
          msg = msg\<lparr>msg_conn := conn gl\<rparr>;
          msg = msg\<lparr>msg_addr := addr gl\<rparr>
      in (msg, gl))"

text \<open>\<^verbatim>\<open>freeMessage\<close> gives no client when it panics (\<^verbatim>\<open>Reset\<close> through a nil \<^verbatim>\<open>zip\<close>).\<close>

definition freeMessage :: "'z gzip \<Rightarrow> 'z ClientPool \<Rightarrow> 'z message \<Rightarrow> 'z ClientPool option" where
  "freeMessage G gl msg =
     (let msg = msg\<lparr>msg_buf := []\<rparr> in
      case msg_zip msg of
        None \<Rightarrow> None
      | Some z \<Rightarrow>
          (let msg = msg\<lparr>msg_zip := Some (gzReset G z)\<rparr>;
               msg = msg\<lparr>msg_id := replicate 8 0\<rparr>
           in Some (msgPool_Put gl msg)))"

definition message_Write ::
  "'z gzip \<Rightarrow> 'z message \<Rightarrow> byte list list \<Rightarrow> byte list
     \<Rightarrow> result \<times> 'z message \<times> byte list list" where
  "message_Write G msg sent p =
     (case msg_zip msg of
        None \<Rightarrow> (Panic, msg, sent)
      | Some zip0 \<Rightarrow>
          (let w = gzWrite G zip0 (TrimFunc p IsSpace);
               n = fst (snd (snd w)); err = snd (snd (snd w));
               msg = msg\<lparr>msg_zip := Some (fst w), msg_buf := msg_buf msg @ fst (snd w)\<rparr>;
               c = gzClose G (fst w);
               msg = msg\<lparr>msg_zip := Some (fst c), msg_buf := msg_buf msg @ snd c\<rparr>
           in
           case failure err of
             Some e \<Rightarrow> (Return 0 (Some e), msg, sent)
           | None \<Rightarrow>
               (let len = length (msg_buf msg);
                    count = chunkCount len
                in
                if count > maxChunkCount
                then (Return 0 (Some (ErrExceedsMaxSize len (maxChunkCount * maxChunkSize))),
                      msg, sent)
                else
                  (let l = sendChunks (msg_conn msg) (msg_addr msg) (msg_id msg) count 0
                             (msg_buf msg) sent;
                       msg = msg\<lparr>msg_buf := fst (snd l)\<rparr>
                   in
                   case fst l of
                     Some r \<Rightarrow> (r, msg, snd (snd l))
                   | None \<Rightarrow> (Return n None, msg, snd (snd l))))))"

text \<open>
  \<^verbatim>\<open>Write\<close>: \<^verbatim>\<open>msg := gl.newMessage(); defer gl.freeMessage(msg); return msg.Write(p)\<close>.
  When the deferred \<^verbatim>\<open>freeMessage\<close> panics the message does not come back to the pool.
\<close>

definition Write_pool ::
  "'z gzip \<Rightarrow> 'z ClientPool \<Rightarrow> byte list list \<Rightarrow> nat \<Rightarrow> byte list
     \<Rightarrow> result \<times> 'z ClientPool \<times> byte list list" where
  "Write_pool G gl sent pick p =
     (if length p = 0 then (Return 0 None, gl, sent)
      else if \<not> HasSuffix p [0x0A] then (Return 0 (Some ErrMissingNewline), gl, sent)
      else
        (let nm = newMessage G gl pick; msg = fst nm; gl = snd nm;
             r = message_Write G msg sent p
         in
         case freeMessage G gl (fst (snd r)) of
           None \<Rightarrow> (Panic, gl, snd (snd r))
         | Some gl \<Rightarrow> (fst r, gl, snd (snd r))))"

subsection \<open>Reading the wire\<close>

text \<open>
  What a receiver reads in a packet: the sequence index is the byte at offset 10, the
  payload starts at offset 12. \<open>reassemble\<close> puts packets in the order of their
  sequence indices and concatenates their payloads.
\<close>

definition payload :: "byte list \<Rightarrow> byte list" where
  "payload pkt = drop 12 pkt"

definition seqIndex :: "byte list \<Rightarrow> nat" where
  "seqIndex pkt = unat (pkt ! 10)"

definition reassemble :: "byte list list \<Rightarrow> byte list" where
  "reassemble pkts = concat (map payload (sort_key seqIndex pkts))"

text \<open>
  For stating what \<^verbatim>\<open>Write\<close> sends: the \<open>k\<close>-th slice of at most \<^verbatim>\<open>maxChunkSize\<close> bytes
  of the compressed bytes \<open>b\<close>, the packet that frames it, and the packets of a message.
\<close>

definition chunkAt :: "byte list \<Rightarrow> nat \<Rightarrow> byte list" where
  "chunkAt b k = take maxChunkSize (drop (k * maxChunkSize) b)"

definition packetAt :: "byte list \<Rightarrow> nat \<Rightarrow> byte list \<Rightarrow> nat \<Rightarrow> byte list" where
  "packetAt ident count b k =
     [gelfMagicByteA, gelfMagicByteB] @ ident @ [of_nat k, of_nat count] @ chunkAt b k"

definition packets :: "byte list \<Rightarrow> nat \<Rightarrow> byte list \<Rightarrow> byte list list" where
  "packets ident count b = map (packetAt ident count b) [0..<count]"

text \<open>
  The bytes a compressor in state \<open>z\<close> writes to its sink for \<^verbatim>\<open>Write(x)\<close> followed by
  \<^verbatim>\<open>Close()\<close>.
\<close>

definition gzipBytes :: "'z gzip \<Rightarrow> 'z \<Rightarrow> byte list \<Rightarrow> byte list" where
  "gzipBytes G z x = fst (snd (gzWrite G z x)) @ snd (gzClose G (fst (gzWrite G z x)))"

text \<open>
  The first of the packets \<open>pkts\<close>, handed to the connection one after the other, that
  the connection refuses, with its error; \<^term>\<open>None\<close> when it takes them all.
\<close>

fun firstReject ::
  "packetConn \<Rightarrow> addr option \<Rightarrow> byte list list \<Rightarrow> byte list list \<Rightarrow> (nat \<times> error) option" where
  "firstReject w a sent [] = None"
| "firstReject w a sent (pkt # pkts) =
     (case w sent pkt a of
        Some e \<Rightarrow> Some (0, e)
      | None \<Rightarrow> map_option (\<lambda>(k, e). (Suc k, e)) (firstReject w a (sent @ [pkt]) pkts))"

text \<open>
  The identifiers of \<open>N\<close> calls of \<^verbatim>\<open>messageID\<close> on one client, one after the other, in
  the order of the calls.
\<close>

fun nextIDs :: "nat \<Rightarrow> 'a ClientCore_scheme \<Rightarrow> byte list list" where
  "nextIDs 0 gl = []"
| "nextIDs (Suc n) gl = fst (messageID gl) # nextIDs n (snd (messageID gl))"

subsection \<open>An instance of the parameters\<close>

text \<open>
  For running the model on concrete inputs. \<open>storedGzip\<close> is a compressor that stores:
  \<^verbatim>\<open>Write\<close> emits a two-byte header and the payload, \<^verbatim>\<open>Close\<close> a one-byte trailer, and
  a closed writer refuses to write until it is reset; its state counts the calls of
  \<^verbatim>\<open>Close\<close> since the last reset. \<open>storedGunzip\<close> reads such a stream back.
  \<open>paddedGzip m\<close> is the same compressor with a trailer of \<open>m\<close> bytes. \<open>acceptAll\<close> is a
  connection that takes every packet, \<open>rejectFrom k\<close> one that takes \<open>k\<close> packets and
  refuses the following ones. \<open>exampleClient\<close> is the client \<^verbatim>\<open>New\<close> makes from
  \<open>exampleConfig\<close> when the random source gives the tag \<open>DE AD BE EF\<close>.
\<close>

definition storedGzip :: "nat gzip" where
  "storedGzip =
     \<lparr>NewWriterLevel = (\<lambda>level. if - 2 \<le> level \<and> level \<le> 9 then Some 0 else None),
      gzWrite = (\<lambda>z x. if z = 0 then (z, [0x1f, 0x8b] @ x, int (length x), None)
                         else (z, [], 0, Some (External ''write after close''))),
      gzClose = (\<lambda>z. if z = 0 then (1, [0x00]) else (z, [])),
      gzReset = (\<lambda>z. 0)\<rparr>"

definition storedGunzip :: "byte list \<Rightarrow> byte list option" where
  "storedGunzip bs =
     (if 3 \<le> length bs \<and> take 2 bs = [0x1f, 0x8b] \<and> last bs = 0x00
      then Some (butlast (drop 2 bs)) else None)"

definition paddedGzip :: "nat \<Rightarrow> nat gzip" where
  "paddedGzip m = storedGzip\<lparr>gzClose := (\<lambda>z. if z = 0 then (1, replicate m 0x00) else (z, []))\<rparr>"

definition acceptAll :: packetConn where
  "acceptAll sent pkt a = None"

definition rejectFrom :: "nat \<Rightarrow> packetConn" where
  "rejectFrom k sent pkt a =
     (if length sent < k then None else Some (External ''network is unreachable''))"

definition exampleConfig :: Config where
  "exampleConfig =
     \<lparr>CompressionLevel = - 1, ServerAddr = Some ''graylog.example:12201'',
      ClientPacketConn = Some acceptAll\<rparr>"

definition exampleClient :: Client where
  "exampleClient =
     \<lparr>instanceID = Byte4 0xDE 0xAD 0xBE 0xEF, addr = Some ''graylog.example:12201'',
      conn = Some acceptAll, messageCount = 0, compressionLevel = - 1\<rparr>"

text \<open>
  A client of the second version and a client of the third, as their \<^verbatim>\<open>New\<close> makes them
  with \<open>storedGzip\<close>: an empty buffer and a new compressor, an empty pool.
\<close>

definition exampleClientMux :: "nat ClientMux" where
  "exampleClientMux =
     \<lparr>instanceID = Byte4 0xDE 0xAD 0xBE 0xEF, addr = Some ''graylog.example:12201'',
      conn = Some acceptAll, messageCount = 0, gl_zip = Some 0, gl_buf = []\<rparr>"

definition exampleClientPool :: "nat ClientPool" where
  "exampleClientPool =
     \<lparr>instanceID = Byte4 0xDE 0xAD 0xBE 0xEF, addr = Some ''graylog.example:12201'',
      conn = Some acceptAll, messageCount = 0, msgPool = [], msgPool_level = - 1\<rparr>"

text \<open>A configuration with a connection and no server address.\<close>

definition addresslessConfig :: Config where
  "addresslessConfig =
     \<lparr>CompressionLevel = - 1, ServerAddr = None, ClientPacketConn = Some acceptAll\<rparr>"

text \<open>The packets of the three-chunk message of the example client under \<open>paddedGzip 3000\<close>.\<close>

definition examplePackets :: "byte list list" where
  "examplePackets =
     packets [0xDE, 0xAD, 0xBE, 0xEF, 1, 0, 0, 0] 3 ([0x1f, 0x8b, 0x61] @ replicate 3000 0x00)"

section \<open>Properties\<close>

subsection \<open>The example clients are those \<^verbatim>\<open>New\<close> makes\<close>

lemma New_exampleConfig:
  "New exampleConfig (Inr (Byte4 0xDE 0xAD 0xBE 0xEF)) = Inr exampleClient"
  by (simp add: New_def exampleConfig_def exampleClient_def NoCompression_def
      DefaultCompression_def)

lemma New_mux_exampleConfig:
  "New_mux storedGzip exampleConfig (Inr (Byte4 0xDE 0xAD 0xBE 0xEF)) = Inr exampleClientMux"
  by (simp add: New_mux_def exampleConfig_def exampleClientMux_def storedGzip_def
      NoCompression_def DefaultCompression_def)

lemma New_pool_exampleConfig:
  "New_pool exampleConfig (Inr (Byte4 0xDE 0xAD 0xBE 0xEF)) = Inr exampleClientPool"
  by (simp add: New_pool_def exampleConfig_def exampleClientPool_def NoCompression_def
      DefaultCompression_def)

lemma New_conn: "New c rnd = Inr gl \<Longrightarrow> conn gl \<noteq> None"
  by (auto simp: New_def split: if_splits sum.splits)

lemma New_mux_clean:
  "New_mux G c rnd = Inr gl \<Longrightarrow>
     gl_buf gl = [] \<and> gl_zip gl = NewWriterLevel G (CompressionLevel c)"
  by (auto simp: New_mux_def split: if_splits sum.splits)

lemma New_pool_empty: "New_pool c rnd = Inr gl \<Longrightarrow> msgPool gl = []"
  by (auto simp: New_pool_def split: if_splits sum.splits)

subsection \<open>The loop and the wire\<close>

lemma Buffer_Read_chunk: "0 < m \<Longrightarrow> fst (Buffer_Read b m) = take m b"
  by (simp add: Buffer_Read_def)

lemma Buffer_Read_err: "failure (fst (snd (Buffer_Read b m))) = None"
  by (simp add: Buffer_Read_def failure_def)

lemma Buffer_Read_rest: "0 < m \<Longrightarrow> snd (snd (Buffer_Read b m)) = drop m b"
  by (simp add: Buffer_Read_def)

lemma maxChunkSize_pos: "0 < maxChunkSize"
  by (simp add: maxChunkSize_def)

lemma sendChunks_step:
  assumes "i < count"
  shows "sendChunks (Some w) a ident count i (drop (i * maxChunkSize) b0) sent =
     (case w sent (packetAt ident count b0 i) a of
        Some e \<Rightarrow> (Some (Return 0 (Some (ErrWriting e))), drop ((i + 1) * maxChunkSize) b0,
                   sent @ [packetAt ident count b0 i])
      | None \<Rightarrow> sendChunks (Some w) a ident count (i + 1) (drop ((i + 1) * maxChunkSize) b0)
                  (sent @ [packetAt ident count b0 i]))"
  using assms
  by (subst sendChunks.simps)
    (simp add: Let_def Buffer_Read_chunk Buffer_Read_err Buffer_Read_rest maxChunkSize_pos
      packetAt_def chunkAt_def add.commute split: option.split)

lemma sendChunks_done: "sendChunks c a ident count count b sent = (None, b, sent)"
  by (subst sendChunks.simps) simp

lemma sendChunks_Some:
  "i \<le> count \<Longrightarrow>
   sendChunks (Some w) a ident count i (drop (i * maxChunkSize) b0) sent =
     (case firstReject w a sent (map (packetAt ident count b0) [i..<count]) of
        None \<Rightarrow> (None, drop (count * maxChunkSize) b0,
                  sent @ map (packetAt ident count b0) [i..<count])
      | Some (k, e) \<Rightarrow> (Some (Return 0 (Some (ErrWriting e))),
                  drop ((i + k + 1) * maxChunkSize) b0,
                  sent @ map (packetAt ident count b0) [i..<i + k + 1]))"
proof (induction "count - i" arbitrary: i sent)
  case 0
  then have "i = count"
    by simp
  then show ?case
    by (simp add: sendChunks_done)
next
  case (Suc d)
  then have lt: "i < count" and d: "d = count - (i + 1)" and le: "i + 1 \<le> count"
    by simp_all
  have upt: "[i..<count] = i # [i + 1..<count]"
    using lt by (simp add: upt_conv_Cons)
  show ?case
  proof (cases "w sent (packetAt ident count b0 i) a")
    case (Some e)
    then show ?thesis
      by (simp add: sendChunks_step [OF lt] upt)
  next
    case None
    note IH = Suc.hyps(1) [OF d le, of "sent @ [packetAt ident count b0 i]"]
    show ?thesis
    proof (cases "firstReject w a (sent @ [packetAt ident count b0 i])
        (map (packetAt ident count b0) [i + 1..<count])")
      case None': None
      with None IH show ?thesis
        by (simp add: sendChunks_step [OF lt] upt)
    next
      case (Some ke)
      obtain k e where ke: "ke = (k, e)"
        by (cases ke)
      have "[i..<i + (k + 1) + 1] = i # [i + 1..<i + 1 + k + 1]"
        by (simp add: upt_conv_Cons)
      with None Some ke IH show ?thesis
        by (simp add: sendChunks_step [OF lt] upt)
    qed
  qed
qed

lemma sendChunks_None:
  "i < count \<Longrightarrow> sendChunks None a ident count i b sent
     = (Some Panic, drop maxChunkSize b, sent)"
  by (subst sendChunks.simps)
    (simp add: Let_def Buffer_Read_err Buffer_Read_rest maxChunkSize_pos)

lemma firstReject_None_iff:
  "firstReject w a sent pkts = None
     \<longleftrightarrow> (\<forall>j<length pkts. w (sent @ take j pkts) (pkts ! j) a = None)"
proof (induction pkts arbitrary: sent)
  case Nil
  show ?case by simp
next
  case (Cons pkt pkts)
  show ?case
  proof (cases "w sent pkt a")
    case (Some e)
    then show ?thesis by auto
  next
    case None
    have "(\<forall>j<length (pkt # pkts). w (sent @ take j (pkt # pkts)) ((pkt # pkts) ! j) a = None)
        \<longleftrightarrow> (\<forall>j<length pkts. w ((sent @ [pkt]) @ take j pkts) (pkts ! j) a = None)"
      using None by (auto simp: less_Suc_eq_0_disj)
    with None Cons.IH [of "sent @ [pkt]"] show ?thesis
      by simp
  qed
qed

lemma firstReject_Some_iff:
  "firstReject w a sent pkts = Some (k, e)
     \<longleftrightarrow> k < length pkts \<and> w (sent @ take k pkts) (pkts ! k) a = Some e
         \<and> (\<forall>j<k. w (sent @ take j pkts) (pkts ! j) a = None)"
proof (induction pkts arbitrary: sent k)
  case Nil
  show ?case by simp
next
  case (Cons pkt pkts)
  show ?case
  proof (cases "w sent pkt a")
    case (Some e')
    show ?thesis
    proof (cases k)
      case 0
      with Some show ?thesis by auto
    next
      case (Suc k')
      with Some show ?thesis by auto
    qed
  next
    case None
    show ?thesis
    proof (cases k)
      case 0
      with None show ?thesis by (auto split: prod.splits)
    next
      case (Suc k')
      have "(\<forall>j<Suc k'. w (sent @ take j (pkt # pkts)) ((pkt # pkts) ! j) a = None)
          \<longleftrightarrow> (\<forall>j<k'. w ((sent @ [pkt]) @ take j pkts) (pkts ! j) a = None)"
        using None by (auto simp: less_Suc_eq_0_disj)
      with None Suc Cons.IH [of "sent @ [pkt]" k'] show ?thesis
        by (auto split: prod.splits)
    qed
  qed
qed

lemma concat_chunkAt: "concat (map (chunkAt b) [0..<n]) = take (n * maxChunkSize) b"
proof (induction n)
  case 0
  show ?case by simp
next
  case (Suc n)
  have "take (n * maxChunkSize + maxChunkSize) b
      = take (n * maxChunkSize) b @ take maxChunkSize (drop (n * maxChunkSize) b)"
    by (rule take_add)
  with Suc show ?case
    by (simp add: chunkAt_def add.commute)
qed

lemma chunkCount_covers: "length b \<le> chunkCount (length b) * maxChunkSize"
proof (cases "length b mod maxChunkSize = 0")
  case True
  then have "length b div maxChunkSize * maxChunkSize = length b"
    by auto
  with True show ?thesis
    by (simp add: chunkCount_def Let_def)
next
  case False
  have "length b < maxChunkSize + length b div maxChunkSize * maxChunkSize"
    using maxChunkSize_pos by (rule dividend_less_div_times)
  with False show ?thesis
    by (simp add: chunkCount_def Let_def)
qed

lemma concat_chunks: "concat (map (chunkAt b) [0..<chunkCount (length b)]) = b"
  by (simp add: concat_chunkAt chunkCount_covers)

lemma payload_packetAt: "length ident = 8 \<Longrightarrow> payload (packetAt ident count b k) = chunkAt b k"
  by (simp add: payload_def packetAt_def)

lemma seqIndex_packetAt:
  "length ident = 8 \<Longrightarrow> k < 256 \<Longrightarrow> seqIndex (packetAt ident count b k) = k"
  by (simp add: seqIndex_def packetAt_def nth_append unat_of_nat)

lemma sort_packets:
  assumes "length ident = 8" and "count \<le> 256"
  shows "sort_key seqIndex (map (packetAt ident count b) [0..<count])
    = map (packetAt ident count b) [0..<count]"
proof -
  have "map seqIndex (map (packetAt ident count b) [0..<count]) = [0..<count]"
    using assms by (auto simp: seqIndex_packetAt intro: map_idI)
  then have "sorted (map seqIndex (map (packetAt ident count b) [0..<count]))"
    by simp
  then show ?thesis
    by (rule sort_key_id_if_sorted)
qed

lemma reassemble_packets:
  assumes "length ident = 8" and "chunkCount (length b) \<le> 256"
  shows "reassemble (packets ident (chunkCount (length b)) b) = b"
proof -
  let ?n = "chunkCount (length b)"
  have "map payload (map (packetAt ident ?n b) [0..<?n]) = map (chunkAt b) [0..<?n]"
    using assms by (simp add: payload_packetAt)
  then have "concat (map payload (map (packetAt ident ?n b) [0..<?n])) = b"
    by (simp only: concat_chunks)
  then show ?thesis
    by (simp only: reassemble_def packets_def sort_packets [OF assms])
qed

lemma messageID_length: "length (fst (messageID gl)) = 8"
  by (cases "instanceID gl") (simp add: messageID_def Let_def PutUint32_def)

subsection \<open>\<^verbatim>\<open>Write\<close>, first version, path by path\<close>

lemma HasSuffix_newline: "HasSuffix p [0x0A] \<longleftrightarrow> p \<noteq> [] \<and> last p = 0x0A"
proof (cases p rule: rev_cases)
  case Nil
  then show ?thesis by (simp add: HasSuffix_def)
next
  case (snoc ys y)
  then show ?thesis by (simp add: HasSuffix_def)
qed

lemma map_upt_take:
  "k < count \<Longrightarrow> map f [0..<0 + k + 1] = take (k + 1) (map f [0..<count])"
  by (simp add: take_map take_upt)

lemma Write_compress_error:
  assumes "p \<noteq> []" and "HasSuffix p [0x0A]"
    and "NewWriterLevel G (compressionLevel gl) = Some z0"
    and "gzWrite G z0 (TrimFunc p IsSpace) = (z1, o1, n, err)"
    and "failure err = Some e"
  shows "Write G gl sent p = (Return 0 (Some e), gl, sent)"
  using assms by (simp add: Write_def Let_def)

lemma Write_too_large:
  assumes "p \<noteq> []" and "HasSuffix p [0x0A]"
    and "NewWriterLevel G (compressionLevel gl) = Some z0"
    and "gzWrite G z0 (TrimFunc p IsSpace) = (z1, o1, n, err)"
    and "gzClose G z1 = (z2, o2)"
    and "failure err = None"
    and "chunkCount (length (o1 @ o2)) > maxChunkCount"
  shows "Write G gl sent p =
    (Return 0 (Some (ErrExceedsMaxSize (length (o1 @ o2)) (maxChunkCount * maxChunkSize))),
     gl, sent)"
  using assms by (simp add: Write_def Let_def)

lemma Write_send:
  assumes "p \<noteq> []" and "HasSuffix p [0x0A]"
    and "NewWriterLevel G (compressionLevel gl) = Some z0"
    and "gzWrite G z0 (TrimFunc p IsSpace) = (z1, o1, n, err)"
    and "gzClose G z1 = (z2, o2)"
    and "failure err = None"
    and "chunkCount (length (o1 @ o2)) \<le> maxChunkCount"
    and "conn gl = Some w"
  shows "Write G gl sent p =
    (case firstReject w (addr gl) sent
            (packets (fst (messageID gl)) (chunkCount (length (o1 @ o2))) (o1 @ o2)) of
       None \<Rightarrow> (Return n None, snd (messageID gl),
                 sent @ packets (fst (messageID gl)) (chunkCount (length (o1 @ o2))) (o1 @ o2))
     | Some (k, e) \<Rightarrow> (Return 0 (Some (ErrWriting e)), snd (messageID gl),
                 sent @ take (k + 1)
                   (packets (fst (messageID gl)) (chunkCount (length (o1 @ o2))) (o1 @ o2))))"
proof -
  let ?b = "o1 @ o2"
  let ?count = "chunkCount (length ?b)"
  let ?ident = "fst (messageID gl)"
  have c: "conn (snd (messageID gl)) = Some w" and a: "addr (snd (messageID gl)) = addr gl"
    using assms(8) by (simp_all add: messageID_def Let_def)
  have loop: "sendChunks (Some w) (addr gl) ?ident ?count 0 ?b sent =
      (case firstReject w (addr gl) sent (map (packetAt ?ident ?count ?b) [0..<?count]) of
        None \<Rightarrow> (None, drop (?count * maxChunkSize) ?b,
                  sent @ map (packetAt ?ident ?count ?b) [0..<?count])
      | Some (k, e) \<Rightarrow> (Some (Return 0 (Some (ErrWriting e))),
                  drop ((0 + k + 1) * maxChunkSize) ?b,
                  sent @ map (packetAt ?ident ?count ?b) [0..<0 + k + 1]))"
    using sendChunks_Some [of 0 ?count w "addr gl" ?ident ?b sent] by simp
  have W: "Write G gl sent p =
      (let l = sendChunks (Some w) (addr gl) ?ident ?count 0 ?b sent
       in case fst l of Some r \<Rightarrow> (r, snd (messageID gl), snd (snd l))
          | None \<Rightarrow> (Return n None, snd (messageID gl), snd (snd l)))"
    using assms(1-7) c a by (simp add: Write_def Let_def split: option.split)
  show ?thesis
  proof (cases "firstReject w (addr gl) sent (map (packetAt ?ident ?count ?b) [0..<?count])")
    case None
    with W loop show ?thesis
      by (simp add: packets_def)
  next
    case (Some ke)
    obtain k e where ke: "ke = (k, e)"
      by (cases ke)
    from Some ke have "k < ?count"
      by (simp add: firstReject_Some_iff)
    then have "map (packetAt ?ident ?count ?b) [0..<0 + k + 1]
        = take (k + 1) (map (packetAt ?ident ?count ?b) [0..<?count])"
      by (rule map_upt_take)
    with W loop Some ke show ?thesis
      by (simp add: packets_def)
  qed
qed

lemma chunkCount_eq: "chunkCount L = L div 1420 + (if L mod 1420 \<noteq> 0 then 1 else 0)"
  by (simp add: chunkCount_def maxChunkSize_def Let_def)

lemma Write_nil_conn:
  assumes "p \<noteq> []" and "HasSuffix p [0x0A]"
    and "NewWriterLevel G (compressionLevel gl) = Some z0"
    and "gzWrite G z0 (TrimFunc p IsSpace) = (z1, o1, n, err)"
    and "gzClose G z1 = (z2, o2)"
    and "failure err = None"
    and "chunkCount (length (o1 @ o2)) \<le> maxChunkCount"
    and "conn gl = None"
  shows "Write G gl sent p =
    ((if chunkCount (length (o1 @ o2)) = 0 then Return n None else Panic),
     snd (messageID gl), sent)"
proof -
  have c: "conn (snd (messageID gl)) = None"
    using assms(8) by (simp add: messageID_def Let_def)
  show ?thesis
  proof (cases "chunkCount (length (o1 @ o2)) = 0")
    case True
    with assms(1-7) show ?thesis
      by (simp add: Write_def Let_def sendChunks_done)
  next
    case False
    then have "0 < chunkCount (length (o1 @ o2))"
      by simp
    with assms(1-7) c show ?thesis
      by (simp add: Write_def Let_def sendChunks_None)
  qed
qed


lemma messageID_fst: "fst (messageID gl) = bytes4 (instanceID gl) @ PutUint32 (messageCount gl + 1)"
  by (simp add: messageID_def Let_def)

lemma messageID_snd: "snd (messageID gl) = gl\<lparr>messageCount := messageCount gl + 1\<rparr>"
  by (simp add: messageID_def Let_def)

lemma packets_explicit:
  "packets ident count b =
     map (\<lambda>i. [0x1E, 0x0F] @ ident @ [of_nat i, of_nat count] @ take 1420 (drop (i * 1420) b))
       [0..<count]"
  by (simp add: packets_def packetAt_def chunkAt_def gelfMagicByteA_def gelfMagicByteB_def
      maxChunkSize_def)

lemma byte_of_small: "i \<le> 128 \<Longrightarrow> unat (of_nat i :: byte) = i"
  by (simp add: unat_of_nat)

lemma TrimFunc_foo_line: "TrimFunc [0x20, 0x66, 0x6F, 0x6F, 0x20, 0x0A] IsSpace = [0x66, 0x6F, 0x6F]"
  by code_simp

lemma TrimFunc_a_line: "TrimFunc [0x61, 0x0A] IsSpace = [0x61]"
  by code_simp

subsection \<open>Validation of the input\<close>

text \<open>
  Claim C7. For every non-empty input that does not end with a newline byte, \<^verbatim>\<open>Write\<close>
  returns \<^verbatim>\<open>(0, ErrMissingNewline)\<close> and hands nothing to the connection; for the empty
  input it returns \<^verbatim>\<open>(0, nil)\<close> and hands nothing to the connection. In both cases the
  client is unchanged: no message identifier is used up.
\<close>

theorem Write_rejects_missing_newline:
  "(p \<noteq> [] \<and> last p \<noteq> 0x0A \<longrightarrow>
      Write G gl sent p = (Return 0 (Some ErrMissingNewline), gl, sent))
   \<and> Write G gl sent [] = (Return 0 None, gl, sent)"
  by (simp add: Write_def HasSuffix_newline)

theorem Write_rejects_missing_newline_witness:
  "[0x66, 0x6F, 0x6F] \<noteq> ([] :: byte list) \<and> last [0x66, 0x6F, 0x6F :: byte] \<noteq> 0x0A
   \<and> Write storedGzip exampleClient [] [0x66, 0x6F, 0x6F]
       = (Return 0 (Some ErrMissingNewline), exampleClient, [])
   \<and> Write storedGzip exampleClient [] [] = (Return 0 None, exampleClient, [])"
  using Write_rejects_missing_newline [of "[0x66, 0x6F, 0x6F]" storedGzip exampleClient "[]"]
  by simp


subsection \<open>The number of chunks and the size limit\<close>

text \<open>
  Claim C3. The chunk count for \<open>L\<close> compressed bytes is \<open>L div 1420\<close>, plus one when the
  remainder is not zero: \<open>k * 1420\<close> bytes make \<open>k\<close> chunks and \<open>k * 1420 + 1\<close> bytes make
  \<open>k + 1\<close>. When the count for the compressed payload exceeds 128, \<^verbatim>\<open>Write\<close> returns the
  error "message exceeds maximum size" with the length and the limit \<open>128 * 1420\<close>, and
  hands nothing to the connection; the client is unchanged. When the count is within
  the limit and \<^verbatim>\<open>Write\<close> returns a nil error, it has handed exactly that many packets to
  the connection.
\<close>

theorem chunkCount_and_size_limit:
  assumes "p \<noteq> []" and "HasSuffix p [0x0A]"
    and "NewWriterLevel G (compressionLevel gl) = Some z0"
    and "gzWrite G z0 (TrimFunc p IsSpace) = (z1, o1, n, err)"
    and "gzClose G z1 = (z2, o2)"
    and "failure err = None"
  shows "chunkCount L = L div 1420 + (if L mod 1420 \<noteq> 0 then 1 else 0)
    \<and> chunkCount (k * 1420) = k
    \<and> chunkCount (k * 1420 + 1) = k + 1
    \<and> (chunkCount (length (o1 @ o2)) > 128 \<longrightarrow>
         Write G gl sent p
           = (Return 0 (Some (ErrExceedsMaxSize (length (o1 @ o2)) (128 * 1420))), gl, sent))
    \<and> (chunkCount (length (o1 @ o2)) \<le> 128 \<longrightarrow>
         (\<forall>n' gl' sent'. Write G gl sent p = (Return n' None, gl', sent') \<longrightarrow>
            length sent' = length sent + chunkCount (length (o1 @ o2))))"
proof (intro conjI impI allI)
  show "chunkCount L = L div 1420 + (if L mod 1420 \<noteq> 0 then 1 else 0)"
    by (rule chunkCount_eq)
  show "chunkCount (k * 1420) = k"
    by (simp add: chunkCount_eq)
  have d: "(k * 1420 + 1) div 1420 = k"
    by simp
  have m: "(k * 1420 + 1) mod 1420 = 1"
    using mod_mult_self3 [of k 1420 1] by (simp del: mod_mult_self3)
  show "chunkCount (k * 1420 + 1) = k + 1"
    unfolding chunkCount_def maxChunkSize_def Let_def d m by simp
next
  assume "128 < chunkCount (length (o1 @ o2))"
  then have "chunkCount (length (o1 @ o2)) > maxChunkCount"
    by (simp add: maxChunkCount_def)
  from Write_too_large [OF assms this, of sent]
  show "Write G gl sent p
      = (Return 0 (Some (ErrExceedsMaxSize (length (o1 @ o2)) (128 * 1420))), gl, sent)"
    by (simp add: maxChunkCount_def maxChunkSize_def)
next
  fix n' gl' sent'
  assume le: "chunkCount (length (o1 @ o2)) \<le> 128"
    and W: "Write G gl sent p = (Return n' None, gl', sent')"
  from le have le': "chunkCount (length (o1 @ o2)) \<le> maxChunkCount"
    by (simp add: maxChunkCount_def)
  show "length sent' = length sent + chunkCount (length (o1 @ o2))"
  proof (cases "conn gl")
    case None
    from Write_nil_conn [OF assms le' None, of sent] W show ?thesis
      by (auto split: if_splits)
  next
    case (Some w)
    from Write_send [OF assms le' Some, of sent] W show ?thesis
      by (auto simp: packets_def split: option.splits)
  qed
qed

theorem chunkCount_and_size_limit_witness:
  "chunkCount 2840 = 2 \<and> chunkCount 2841 = 3
   \<and> Write (paddedGzip 200000) exampleClient [] [0x61, 0x0A]
       = (Return 0 (Some (ErrExceedsMaxSize 200003 181760)), exampleClient, [])
   \<and> length (snd (snd (Write storedGzip exampleClient [] [0x61, 0x0A]))) = 1"
proof -
  have t: "TrimFunc [0x61, 0x0A] IsSpace = [0x61]"
    by code_simp
  have p: "[0x61, 0x0A] \<noteq> ([] :: byte list)" and s: "HasSuffix [0x61, 0x0A] [0x0A]"
    by (simp_all add: HasSuffix_def)
  have n: "NewWriterLevel (paddedGzip 200000) (compressionLevel exampleClient) = Some 0"
    by (simp add: paddedGzip_def storedGzip_def exampleClient_def)
  have w: "gzWrite (paddedGzip 200000) 0 (TrimFunc [0x61, 0x0A] IsSpace) = (0, [0x1f, 0x8b, 0x61], 1, None)"
    by (simp add: t paddedGzip_def storedGzip_def)
  have c: "gzClose (paddedGzip 200000) 0 = (1, replicate 200000 0x00)"
    by (simp add: paddedGzip_def storedGzip_def)
  have f: "failure None = None"
    by (simp add: failure_def)
  have big: "chunkCount (length ([0x1f, 0x8b, 0x61] @ replicate 200000 (0x00 :: byte))) > 128"
    by (simp add: chunkCount_def maxChunkSize_def)
  have n': "NewWriterLevel storedGzip (compressionLevel exampleClient) = Some 0"
    by (simp add: storedGzip_def exampleClient_def)
  have w': "gzWrite storedGzip 0 (TrimFunc [0x61, 0x0A] IsSpace) = (0, [0x1f, 0x8b, 0x61], 1, None)"
    by (simp add: t storedGzip_def)
  have c': "gzClose storedGzip 0 = (1, [0x00])"
    by (simp add: storedGzip_def)
  have small: "chunkCount (length ([0x1f, 0x8b, 0x61] @ [0x00 :: byte])) \<le> 128"
    and one: "length ([] :: byte list list) + chunkCount (length ([0x1f, 0x8b, 0x61] @ [0x00 :: byte])) = 1"
    by (simp_all add: chunkCount_def maxChunkSize_def)
  have r: "fst (Write storedGzip exampleClient [] [0x61, 0x0A]) = Return 1 None"
    by code_simp
  obtain gl' sent' where W: "Write storedGzip exampleClient [] [0x61, 0x0A] = (Return 1 None, gl', sent')"
    using r by (cases "Write storedGzip exampleClient [] [0x61, 0x0A]") auto
  from chunkCount_and_size_limit [OF p s n' w' c' f, of 2840 2 "[]"] small W
  have "length sent' = length ([] :: byte list list)
      + chunkCount (length ([0x1f, 0x8b, 0x61] @ [0x00 :: byte]))"
    by blast
  with one W have "length (snd (snd (Write storedGzip exampleClient [] [0x61, 0x0A]))) = 1"
    by simp
  with chunkCount_and_size_limit [OF p s n w c f, of 2840 2 "[]"] big show ?thesis
    by simp
qed

subsection \<open>What a successful \<^verbatim>\<open>Write\<close> returns\<close>

text \<open>
  Claim C6. For every non-empty newline-terminated input whose compressed size stays
  within the chunk-count limit and whose transmission succeeds, \<^verbatim>\<open>Write\<close> returns \<open>n\<close>, the
  count of bytes the compressor's \<^verbatim>\<open>Write\<close> reported for the trimmed input, and a nil
  error. The compressor exists and reports no error other than \<^verbatim>\<open>io.EOF\<close>; the client
  has a connection, which takes each packet of the message, given the packets handed to
  it before.
\<close>

theorem Write_returns_compressor_count:
  assumes "p \<noteq> []" and "HasSuffix p [0x0A]"
    and "NewWriterLevel G (compressionLevel gl) = Some z0"
    and "gzWrite G z0 (TrimFunc p IsSpace) = (z1, o1, n, err)"
    and "gzClose G z1 = (z2, o2)"
    and "failure err = None"
    and "chunkCount (length (o1 @ o2)) \<le> maxChunkCount"
    and "conn gl = Some w"
    and "pkts = packets (fst (messageID gl)) (chunkCount (length (o1 @ o2))) (o1 @ o2)"
    and "\<forall>j<length pkts. w (sent @ take j pkts) (pkts ! j) (addr gl) = None"
  shows "fst (Write G gl sent p) = Return n None"
proof -
  from assms(9,10) have "firstReject w (addr gl) sent
      (packets (fst (messageID gl)) (chunkCount (length (o1 @ o2))) (o1 @ o2)) = None"
    by (simp add: firstReject_None_iff)
  with Write_send [OF assms(1-8), of sent] show ?thesis
    by simp
qed

theorem Write_returns_compressor_count_witness:
  "fst (Write storedGzip exampleClient [] [0x20, 0x66, 0x6F, 0x6F, 0x20, 0x0A]) = Return 3 None"
proof (rule Write_returns_compressor_count)
  show "[0x20, 0x66, 0x6F, 0x6F, 0x20, 0x0A] \<noteq> ([] :: byte list)"
    by simp
  show "HasSuffix [0x20, 0x66, 0x6F, 0x6F, 0x20, 0x0A] [0x0A]"
    by (simp add: HasSuffix_def)
  show "NewWriterLevel storedGzip (compressionLevel exampleClient) = Some 0"
    by (simp add: storedGzip_def exampleClient_def)
  show "gzWrite storedGzip 0 (TrimFunc [0x20, 0x66, 0x6F, 0x6F, 0x20, 0x0A] IsSpace)
      = (0, [0x1f, 0x8b, 0x66, 0x6F, 0x6F], 3, None)"
    by (simp add: TrimFunc_foo_line storedGzip_def)
  show "gzClose storedGzip 0 = (1, [0x00])"
    by (simp add: storedGzip_def)
  show "failure None = None"
    by (simp add: failure_def)
  show "chunkCount (length ([0x1f, 0x8b, 0x66, 0x6F, 0x6F] @ [0x00 :: byte])) \<le> maxChunkCount"
    by (simp add: chunkCount_eq maxChunkCount_def)
  show "conn exampleClient = Some acceptAll"
    by (simp add: exampleClient_def)
  show "packets (fst (messageID exampleClient))
        (chunkCount (length ([0x1f, 0x8b, 0x66, 0x6F, 0x6F] @ [0x00 :: byte])))
        ([0x1f, 0x8b, 0x66, 0x6F, 0x6F] @ [0x00])
      = packets (fst (messageID exampleClient))
        (chunkCount (length ([0x1f, 0x8b, 0x66, 0x6F, 0x6F] @ [0x00 :: byte])))
        ([0x1f, 0x8b, 0x66, 0x6F, 0x6F] @ [0x00])"
    by (rule refl)
  show "\<forall>j<length (packets (fst (messageID exampleClient))
        (chunkCount (length ([0x1f, 0x8b, 0x66, 0x6F, 0x6F] @ [0x00 :: byte])))
        ([0x1f, 0x8b, 0x66, 0x6F, 0x6F] @ [0x00])).
      acceptAll ([] @ take j (packets (fst (messageID exampleClient))
        (chunkCount (length ([0x1f, 0x8b, 0x66, 0x6F, 0x6F] @ [0x00 :: byte])))
        ([0x1f, 0x8b, 0x66, 0x6F, 0x6F] @ [0x00])))
       (packets (fst (messageID exampleClient))
        (chunkCount (length ([0x1f, 0x8b, 0x66, 0x6F, 0x6F] @ [0x00 :: byte])))
        ([0x1f, 0x8b, 0x66, 0x6F, 0x6F] @ [0x00]) ! j) (addr exampleClient) = None"
    by (simp add: acceptAll_def)
qed

subsection \<open>The packets of a message\<close>

text \<open>
  Claim C2. For every message that \<^verbatim>\<open>Write\<close> transmits (a valid input on which it returns
  a nil error), the packets handed to the connection are exactly \<open>count\<close> packets, in
  the order of the indices \<open>0, ..., count - 1\<close>, where \<open>count\<close> is the chunk count of the
  compressed bytes \<open>b\<close>. The packet of index \<open>i\<close> is the two bytes \<open>0x1E 0x0F\<close>, the
  message identifier (the same eight bytes in every packet: the instance tag and the
  incremented counter, little-endian), one byte holding \<open>i\<close>, one byte holding \<open>count\<close>,
  and the bytes \<open>1420 i, ..., 1420 i + 1419\<close> of \<open>b\<close>, as far as they exist. Since
  \<open>count\<close> is at most 128, both bytes hold their numbers without truncation.
\<close>

theorem Write_chunk_layout:
  assumes "p \<noteq> []" and "HasSuffix p [0x0A]"
    and "NewWriterLevel G (compressionLevel gl) = Some z0"
    and "gzWrite G z0 (TrimFunc p IsSpace) = (z1, o1, n, err)"
    and "gzClose G z1 = (z2, o2)"
    and W: "Write G gl sent p = (Return n' None, gl', sent')"
  shows "let b = o1 @ o2;
             count = chunkCount (length b);
             ident = bytes4 (instanceID gl) @ PutUint32 (messageCount gl + 1)
         in sent' = sent @ map (\<lambda>i. [0x1E, 0x0F] @ ident @ [of_nat i, of_nat count]
                                   @ take 1420 (drop (i * 1420) b)) [0..<count]
            \<and> length ident = 8 \<and> count \<le> 128
            \<and> (\<forall>i<count. unat (of_nat i :: byte) = i) \<and> unat (of_nat count :: byte) = count"
proof -
  let ?b = "o1 @ o2"
  let ?count = "chunkCount (length ?b)"
  let ?ident = "fst (messageID gl)"
  note a = assms(1-5)
  have f: "failure err = None"
  proof (cases "failure err")
    case None
    then show ?thesis .
  next
    case (Some e)
    from Write_compress_error [OF assms(1-4) Some, of sent] W show ?thesis
      by simp
  qed
  have le: "?count \<le> maxChunkCount"
  proof (rule ccontr)
    assume "\<not> ?count \<le> maxChunkCount"
    then have "?count > maxChunkCount"
      by simp
    from Write_too_large [OF a f this, of sent] W show False
      by simp
  qed
  have sent': "sent' = sent @ packets ?ident ?count ?b"
  proof (cases "conn gl")
    case None
    from Write_nil_conn [OF a f le None, of sent] W have "?count = 0" and "sent' = sent"
      by (auto split: if_splits)
    then show ?thesis
      by (simp add: packets_def)
  next
    case (Some w)
    from Write_send [OF a f le Some, of sent] W show ?thesis
      by (auto split: option.splits)
  qed
  have id8: "length ?ident = 8"
    by (rule messageID_length)
  from le have le128: "?count \<le> 128"
    by (simp add: maxChunkCount_def)
  then have "\<forall>i<?count. unat (of_nat i :: byte) = i" and "unat (of_nat ?count :: byte) = ?count"
    by (simp_all add: byte_of_small)
  with sent' id8 le128 show ?thesis
    unfolding Let_def messageID_fst [symmetric] packets_explicit [symmetric] by blast
qed

theorem Write_chunk_layout_witness:
  "snd (snd (Write storedGzip exampleClient [] [0x20, 0x66, 0x6F, 0x6F, 0x20, 0x0A]))
    = [[0x1E, 0x0F, 0xDE, 0xAD, 0xBE, 0xEF, 1, 0, 0, 0, 0, 1, 0x1f, 0x8b, 0x66, 0x6F, 0x6F, 0x00]]"
proof -
  have r: "fst (Write storedGzip exampleClient [] [0x20, 0x66, 0x6F, 0x6F, 0x20, 0x0A]) = Return 3 None"
    by code_simp
  obtain gl' sent' where
    W: "Write storedGzip exampleClient [] [0x20, 0x66, 0x6F, 0x6F, 0x20, 0x0A]
      = (Return 3 None, gl', sent')"
    using r by (cases "Write storedGzip exampleClient [] [0x20, 0x66, 0x6F, 0x6F, 0x20, 0x0A]") auto
  have p: "[0x20, 0x66, 0x6F, 0x6F, 0x20, 0x0A] \<noteq> ([] :: byte list)"
    by simp
  have s: "HasSuffix [0x20, 0x66, 0x6F, 0x6F, 0x20, 0x0A] [0x0A]"
    by (simp add: HasSuffix_def)
  have n: "NewWriterLevel storedGzip (compressionLevel exampleClient) = Some 0"
    by (simp add: storedGzip_def exampleClient_def)
  have w: "gzWrite storedGzip 0 (TrimFunc [0x20, 0x66, 0x6F, 0x6F, 0x20, 0x0A] IsSpace)
      = (0, [0x1f, 0x8b, 0x66, 0x6F, 0x6F], 3, None)"
    by (simp add: TrimFunc_foo_line storedGzip_def)
  have c: "gzClose storedGzip 0 = (1, [0x00])"
    by (simp add: storedGzip_def)
  have k: "chunkCount (length ([0x1f, 0x8b, 0x66, 0x6F, 0x6F] @ [0x00 :: byte])) = 1"
    by (simp add: chunkCount_eq)
  have i: "bytes4 (instanceID exampleClient) @ PutUint32 (messageCount exampleClient + 1)
      = [0xDE, 0xAD, 0xBE, 0xEF, 1, 0, 0, 0]"
    by (simp add: exampleClient_def PutUint32_def)
  from Write_chunk_layout [OF p s n w c W]
  have "sent' = [[0x1E, 0x0F, 0xDE, 0xAD, 0xBE, 0xEF, 1, 0, 0, 0, 0, 1, 0x1f, 0x8b, 0x66, 0x6F, 0x6F, 0x00]]"
    unfolding Let_def k i by simp
  with W show ?thesis
    by simp
qed

subsection \<open>Reassembly\<close>

text \<open>
  Claim C1. For every non-empty newline-terminated input whose compressed form fits
  within the chunk-count limit, the payloads of the packets \<^verbatim>\<open>Write\<close> hands to the
  connection, put in the order of their sequence indices and concatenated, decompress
  to the input with leading and trailing Unicode whitespace stripped (the trimming
  comes after the test for the final newline, which the trimming removes, and before
  the compression). \<open>gunzip\<close> is any function that inverts the compressor on this
  payload. The compressor reports no error other than \<^verbatim>\<open>io.EOF\<close>, and the connection
  takes each packet of the message.
\<close>

theorem chunks_reassemble_to_trimmed_input:
  assumes "p \<noteq> []" and "HasSuffix p [0x0A]"
    and "NewWriterLevel G (compressionLevel gl) = Some z0"
    and "gzWrite G z0 (TrimFunc p IsSpace) = (z1, o1, n, err)"
    and "gzClose G z1 = (z2, o2)"
    and "failure err = None"
    and "gunzip (o1 @ o2) = Some (TrimFunc p IsSpace)"
    and "chunkCount (length (o1 @ o2)) \<le> maxChunkCount"
    and "conn gl = Some w"
    and "pkts = packets (fst (messageID gl)) (chunkCount (length (o1 @ o2))) (o1 @ o2)"
    and "\<forall>j<length pkts. w (sent @ take j pkts) (pkts ! j) (addr gl) = None"
  shows "gunzip (reassemble (drop (length sent) (snd (snd (Write G gl sent p)))))
    = Some (TrimFunc p IsSpace)"
proof -
  let ?b = "o1 @ o2"
  from assms(10,11) have "firstReject w (addr gl) sent
      (packets (fst (messageID gl)) (chunkCount (length ?b)) ?b) = None"
    by (simp add: firstReject_None_iff)
  with Write_send [OF assms(1-6) assms(8,9), of sent]
  have "snd (snd (Write G gl sent p))
      = sent @ packets (fst (messageID gl)) (chunkCount (length ?b)) ?b"
    by simp
  then have "drop (length sent) (snd (snd (Write G gl sent p)))
      = packets (fst (messageID gl)) (chunkCount (length ?b)) ?b"
    by simp
  moreover have "chunkCount (length ?b) \<le> 256"
    using assms(8) by (simp add: maxChunkCount_def)
  ultimately have "reassemble (drop (length sent) (snd (snd (Write G gl sent p)))) = ?b"
    by (simp only: reassemble_packets [OF messageID_length])
  with assms(7) show ?thesis
    by simp
qed

theorem chunks_reassemble_to_trimmed_input_witness:
  "storedGunzip (reassemble (drop (length ([] :: byte list list))
      (snd (snd (Write storedGzip exampleClient [] [0x20, 0x66, 0x6F, 0x6F, 0x20, 0x0A])))))
    = Some [0x66, 0x6F, 0x6F]"
proof -
  have "storedGunzip (reassemble (drop (length ([] :: byte list list))
      (snd (snd (Write storedGzip exampleClient [] [0x20, 0x66, 0x6F, 0x6F, 0x20, 0x0A])))))
    = Some (TrimFunc [0x20, 0x66, 0x6F, 0x6F, 0x20, 0x0A] IsSpace)"
  proof (rule chunks_reassemble_to_trimmed_input)
    show "[0x20, 0x66, 0x6F, 0x6F, 0x20, 0x0A] \<noteq> ([] :: byte list)"
      by simp
    show "HasSuffix [0x20, 0x66, 0x6F, 0x6F, 0x20, 0x0A] [0x0A]"
      by (simp add: HasSuffix_def)
    show "NewWriterLevel storedGzip (compressionLevel exampleClient) = Some 0"
      by (simp add: storedGzip_def exampleClient_def)
    show "gzWrite storedGzip 0 (TrimFunc [0x20, 0x66, 0x6F, 0x6F, 0x20, 0x0A] IsSpace)
        = (0, [0x1f, 0x8b, 0x66, 0x6F, 0x6F], 3, None)"
      by (simp add: TrimFunc_foo_line storedGzip_def)
    show "gzClose storedGzip 0 = (1, [0x00])"
      by (simp add: storedGzip_def)
    show "failure None = None"
      by (simp add: failure_def)
    show "storedGunzip ([0x1f, 0x8b, 0x66, 0x6F, 0x6F] @ [0x00])
        = Some (TrimFunc [0x20, 0x66, 0x6F, 0x6F, 0x20, 0x0A] IsSpace)"
      by (simp add: TrimFunc_foo_line storedGunzip_def)
    show "chunkCount (length ([0x1f, 0x8b, 0x66, 0x6F, 0x6F] @ [0x00 :: byte])) \<le> maxChunkCount"
      by (simp add: chunkCount_eq maxChunkCount_def)
    show "conn exampleClient = Some acceptAll"
      by (simp add: exampleClient_def)
    show "packets (fst (messageID exampleClient))
          (chunkCount (length ([0x1f, 0x8b, 0x66, 0x6F, 0x6F] @ [0x00 :: byte])))
          ([0x1f, 0x8b, 0x66, 0x6F, 0x6F] @ [0x00])
        = packets (fst (messageID exampleClient))
          (chunkCount (length ([0x1f, 0x8b, 0x66, 0x6F, 0x6F] @ [0x00 :: byte])))
          ([0x1f, 0x8b, 0x66, 0x6F, 0x6F] @ [0x00])"
      by (rule refl)
    show "\<forall>j<length (packets (fst (messageID exampleClient))
          (chunkCount (length ([0x1f, 0x8b, 0x66, 0x6F, 0x6F] @ [0x00 :: byte])))
          ([0x1f, 0x8b, 0x66, 0x6F, 0x6F] @ [0x00])).
        acceptAll ([] @ take j (packets (fst (messageID exampleClient))
          (chunkCount (length ([0x1f, 0x8b, 0x66, 0x6F, 0x6F] @ [0x00 :: byte])))
          ([0x1f, 0x8b, 0x66, 0x6F, 0x6F] @ [0x00])))
         (packets (fst (messageID exampleClient))
          (chunkCount (length ([0x1f, 0x8b, 0x66, 0x6F, 0x6F] @ [0x00 :: byte])))
          ([0x1f, 0x8b, 0x66, 0x6F, 0x6F] @ [0x00]) ! j) (addr exampleClient) = None"
      by (simp add: acceptAll_def)
  qed
  then show ?thesis
    by (simp only: TrimFunc_foo_line)
qed

subsection \<open>A connection that refuses a packet\<close>

text \<open>
  Claim C9. If the connection refuses the packet of index \<open>k\<close> of a message with the error
  \<open>e\<close>, having taken the packets before it, \<^verbatim>\<open>Write\<close> returns \<open>0\<close> and an error that wraps
  \<open>e\<close>. The packets handed to the connection are those of indices \<open>0, ..., k\<close> and no
  other: the remaining ones are never handed over, and the \<open>k\<close> packets taken before
  stay on the wire. The message identifier is used up.
\<close>

theorem Write_aborts_on_transport_failure:
  assumes "p \<noteq> []" and "HasSuffix p [0x0A]"
    and "NewWriterLevel G (compressionLevel gl) = Some z0"
    and "gzWrite G z0 (TrimFunc p IsSpace) = (z1, o1, n, err)"
    and "gzClose G z1 = (z2, o2)"
    and "failure err = None"
    and "chunkCount (length (o1 @ o2)) \<le> maxChunkCount"
    and "conn gl = Some w"
    and "pkts = packets (fst (messageID gl)) (chunkCount (length (o1 @ o2))) (o1 @ o2)"
    and "k < length pkts"
    and "\<forall>j<k. w (sent @ take j pkts) (pkts ! j) (addr gl) = None"
    and "w (sent @ take k pkts) (pkts ! k) (addr gl) = Some e"
  shows "Write G gl sent p
      = (Return 0 (Some (ErrWriting e)), gl\<lparr>messageCount := messageCount gl + 1\<rparr>,
         sent @ take (k + 1) pkts)"
proof -
  from assms(9-12) have "firstReject w (addr gl) sent
      (packets (fst (messageID gl)) (chunkCount (length (o1 @ o2))) (o1 @ o2)) = Some (k, e)"
    by (simp add: firstReject_Some_iff)
  with Write_send [OF assms(1-8), of sent] assms(9) show ?thesis
    by (simp add: messageID_snd)
qed

theorem Write_aborts_on_transport_failure_witness:
  "Write (paddedGzip 3000) (exampleClient\<lparr>conn := Some (rejectFrom 1)\<rparr>) [] [0x61, 0x0A]
     = (Return 0 (Some (ErrWriting (External ''network is unreachable''))),
        exampleClient\<lparr>conn := Some (rejectFrom 1), messageCount := 1\<rparr>,
        take 2 examplePackets)"
proof -
  let ?gl = "exampleClient\<lparr>conn := Some (rejectFrom 1)\<rparr>"
  have p: "[0x61, 0x0A] \<noteq> ([] :: byte list)"
    by simp
  have s: "HasSuffix [0x61, 0x0A] [0x0A]"
    by (simp add: HasSuffix_def)
  have n: "NewWriterLevel (paddedGzip 3000) (compressionLevel ?gl) = Some 0"
    by (simp add: paddedGzip_def storedGzip_def exampleClient_def)
  have w: "gzWrite (paddedGzip 3000) 0 (TrimFunc [0x61, 0x0A] IsSpace)
      = (0, [0x1f, 0x8b, 0x61], 1, None)"
    by (simp add: TrimFunc_a_line paddedGzip_def storedGzip_def)
  have c: "gzClose (paddedGzip 3000) 0 = (1, replicate 3000 0x00)"
    by (simp add: paddedGzip_def storedGzip_def)
  have f: "failure None = None"
    by (simp add: failure_def)
  have k: "chunkCount (length ([0x1f, 0x8b, 0x61] @ replicate 3000 (0x00 :: byte))) = 3"
    by (simp add: chunkCount_eq)
  have le: "chunkCount (length ([0x1f, 0x8b, 0x61] @ replicate 3000 (0x00 :: byte))) \<le> maxChunkCount"
    unfolding k by (simp add: maxChunkCount_def)
  have cn: "conn ?gl = Some (rejectFrom 1)"
    by simp
  have i: "fst (messageID ?gl) = [0xDE, 0xAD, 0xBE, 0xEF, 1, 0, 0, 0]"
    by (simp add: messageID_fst exampleClient_def PutUint32_def)
  have pk: "examplePackets = packets (fst (messageID ?gl))
      (chunkCount (length ([0x1f, 0x8b, 0x61] @ replicate 3000 (0x00 :: byte))))
      ([0x1f, 0x8b, 0x61] @ replicate 3000 0x00)"
    unfolding k i examplePackets_def by (rule refl)
  have len: "1 < length examplePackets"
    by (simp add: examplePackets_def packets_def)
  have before: "\<forall>j<1. rejectFrom 1 ([] @ take j examplePackets) (examplePackets ! j) (addr ?gl) = None"
    by (simp add: rejectFrom_def)
  have at: "rejectFrom 1 ([] @ take 1 examplePackets) (examplePackets ! 1) (addr ?gl)
      = Some (External ''network is unreachable'')"
    using len by (simp add: rejectFrom_def)
  from Write_aborts_on_transport_failure [OF p s n w c f le cn pk len before at]
  show ?thesis
    by (simp add: exampleClient_def numeral_2_eq_2)
qed

subsection \<open>Message identifiers\<close>

lemma Uint32_PutUint32: "Uint32 (PutUint32 v) = v"
proof (rule bit_word_eqI)
  fix n
  assume n: "n < LENGTH(32)"
  consider "n < 8" | "8 \<le> n" "n < 16" | "16 \<le> n" "n < 24" | "24 \<le> n"
    by linarith
  then show "bit (Uint32 (PutUint32 v)) n = bit v n"
    using n by cases (auto simp: Uint32_def PutUint32_def bit_simps)
qed

lemma length_PutUint32: "length (PutUint32 v) = 4"
  by (simp add: PutUint32_def)

lemma length_bytes4: "length (bytes4 t) = 4"
  by (cases t) simp

lemma PutUint32_inj: "PutUint32 v = PutUint32 v' \<Longrightarrow> v = v'"
  by (metis Uint32_PutUint32)

lemma length_nextIDs: "length (nextIDs N gl) = N"
  by (induction N arbitrary: gl) simp_all

lemma nextIDs_nth:
  "k < N \<Longrightarrow> nextIDs N gl ! k
     = bytes4 (instanceID gl) @ PutUint32 (messageCount gl + of_nat k + 1)"
proof (induction N arbitrary: gl k)
  case 0
  then show ?case by simp
next
  case (Suc N)
  show ?case
  proof (cases k)
    case 0
    then show ?thesis
      by (simp add: messageID_fst)
  next
    case (Suc k')
    with Suc.prems have "k' < N"
      by simp
    from Suc.IH [OF this, of "snd (messageID gl)"] Suc show ?thesis
      by (simp add: messageID_snd add.commute add.left_commute)
  qed
qed

lemma nextIDs_eq_iff:
  assumes "i < N" and "j < N"
  shows "nextIDs N gl ! i = nextIDs N gl ! j \<longleftrightarrow> (of_nat i :: 32 word) = of_nat j"
proof -
  have "nextIDs N gl ! i = nextIDs N gl ! j
      \<longleftrightarrow> PutUint32 (messageCount gl + of_nat i + 1) = PutUint32 (messageCount gl + of_nat j + 1)"
    using assms by (simp add: nextIDs_nth)
  also have "\<dots> \<longleftrightarrow> messageCount gl + of_nat i + 1 = messageCount gl + of_nat j + 1"
    by (auto dest: PutUint32_inj)
  also have "\<dots> \<longleftrightarrow> (of_nat i :: 32 word) = of_nat j"
    by simp
  finally show ?thesis .
qed

lemma nextIDs_distinct_iff: "distinct (nextIDs N gl) \<longleftrightarrow> N \<le> 2 ^ 32"
proof
  assume d: "distinct (nextIDs N gl)"
  show "N \<le> 2 ^ 32"
  proof (rule ccontr)
    assume "\<not> N \<le> 2 ^ 32"
    then have N: "0 < N" "2 ^ 32 < N"
      by simp_all
    have "(of_nat 0 :: 32 word) = of_nat (2 ^ 32)"
      by simp
    with N have "nextIDs N gl ! 0 = nextIDs N gl ! (2 ^ 32)"
      by (simp only: nextIDs_eq_iff)
    with d N show False
      by (simp add: distinct_conv_nth length_nextIDs)
  qed
next
  assume N: "N \<le> 2 ^ 32"
  show "distinct (nextIDs N gl)"
    unfolding distinct_conv_nth length_nextIDs
  proof (intro allI impI)
    fix i j
    assume i: "i < N" and j: "j < N" and ne: "i \<noteq> j"
    show "nextIDs N gl ! i \<noteq> nextIDs N gl ! j"
    proof
      assume "nextIDs N gl ! i = nextIDs N gl ! j"
      with i j have "(of_nat i :: 32 word) = of_nat j"
        by (simp only: nextIDs_eq_iff)
      then have "unat (of_nat i :: 32 word) = unat (of_nat j :: 32 word)"
        by simp
      moreover from i j N have "i < 2 ^ 32" and "j < 2 ^ 32"
        by simp_all
      ultimately have "i = j"
        by (simp add: unat_of_nat)
      with ne show False ..
    qed
  qed
qed

text \<open>
  Claim C4, amended. \<open>N\<close> calls of \<^verbatim>\<open>messageID\<close> on one client, one after the other, give
  \<open>N\<close> values of eight bytes. The first four bytes of each are the instance tag of the
  client. The last four bytes, read as a little-endian 32-bit integer, are the counter
  of the client plus the number of the call, so that they grow by exactly 1 modulo
  \<open>2 ^ 32\<close> from each call to the next. The \<open>N\<close> values are distinct if and only if
  \<open>N\<close> is at most \<open>2 ^ 32\<close>.
\<close>

theorem messageIDs_sequence:
  "length (nextIDs N gl) = N
   \<and> (\<forall>k<N. length (nextIDs N gl ! k) = 8
          \<and> take 4 (nextIDs N gl ! k) = bytes4 (instanceID gl)
          \<and> Uint32 (drop 4 (nextIDs N gl ! k)) = messageCount gl + of_nat k + 1)
   \<and> (\<forall>k. k + 1 < N \<longrightarrow>
          Uint32 (drop 4 (nextIDs N gl ! (k + 1))) = Uint32 (drop 4 (nextIDs N gl ! k)) + 1)
   \<and> (distinct (nextIDs N gl) \<longleftrightarrow> N \<le> 2 ^ 32)"
proof -
  have nth: "\<forall>k<N. length (nextIDs N gl ! k) = 8
          \<and> take 4 (nextIDs N gl ! k) = bytes4 (instanceID gl)
          \<and> Uint32 (drop 4 (nextIDs N gl ! k)) = messageCount gl + of_nat k + 1"
    by (simp add: nextIDs_nth length_bytes4 length_PutUint32 Uint32_PutUint32)
  have "\<forall>k. k + 1 < N \<longrightarrow>
          Uint32 (drop 4 (nextIDs N gl ! (k + 1))) = Uint32 (drop 4 (nextIDs N gl ! k)) + 1"
    by (simp add: nextIDs_nth length_bytes4 Uint32_PutUint32)
  with nth show ?thesis
    by (simp add: length_nextIDs nextIDs_distinct_iff)
qed

theorem messageIDs_sequence_witness:
  "length (nextIDs 3 exampleClient) = 3
   \<and> distinct (nextIDs 3 exampleClient)
   \<and> length (nextIDs 3 exampleClient ! 2) = 8
   \<and> take 4 (nextIDs 3 exampleClient ! 2) = [0xDE, 0xAD, 0xBE, 0xEF]
   \<and> Uint32 (drop 4 (nextIDs 3 exampleClient ! 2)) = 3"
proof -
  have le: "(3 :: nat) \<le> 2 ^ 32" and lt: "(2 :: nat) < 3"
    by simp_all
  have t: "bytes4 (instanceID exampleClient) = [0xDE, 0xAD, 0xBE, 0xEF]"
    and c: "messageCount exampleClient + of_nat 2 + 1 = 3"
    by (simp_all add: exampleClient_def)
  from messageIDs_sequence [of 3 exampleClient] le lt
  have "length (nextIDs 3 exampleClient) = 3"
    and "distinct (nextIDs 3 exampleClient)"
    and "length (nextIDs 3 exampleClient ! 2) = 8"
    and "take 4 (nextIDs 3 exampleClient ! 2) = bytes4 (instanceID exampleClient)"
    and "Uint32 (drop 4 (nextIDs 3 exampleClient ! 2)) = messageCount exampleClient + of_nat 2 + 1"
    by blast+
  then show ?thesis
    unfolding t c by blast
qed

text \<open>
  The claim as it stands, with \<open>N\<close> distinct values for every \<open>N\<close>, fails once the
  counter has wrapped around: the call number \<open>2 ^ 32 + 1\<close> gives the identifier of the
  first call again.
\<close>

theorem messageIDs_repeat_after_wraparound: "\<not> distinct (nextIDs (2 ^ 32 + 1) exampleClient)"
  by (simp add: nextIDs_distinct_iff)

subsection \<open>Construction\<close>

text \<open>
  Claim C8, amended. \<^verbatim>\<open>New\<close> returns an error and no client whenever the configuration has
  no connection. It does not look at the server address: with a connection and a
  compression level from \<open>-1\<close> to \<open>9\<close>, and when the random source gives the instance tag,
  \<^verbatim>\<open>New\<close> returns a client that holds the address of the configuration as it is, an
  absent one included.
\<close>

theorem New_checks_connection_only:
  "(ClientPacketConn c = None \<longrightarrow> New c rnd = Inl ErrNoConnection)
   \<and> (ClientPacketConn c \<noteq> None \<and> - 1 \<le> CompressionLevel c \<and> CompressionLevel c \<le> 9
        \<longrightarrow> New c (Inr tag)
          = Inr \<lparr>instanceID = tag, addr = ServerAddr c, conn = ClientPacketConn c,
                 messageCount = 0, compressionLevel = CompressionLevel c\<rparr>)"
  by (auto simp: New_def NoCompression_def DefaultCompression_def BestCompression_def
      BestSpeed_def)

theorem New_checks_connection_only_witness:
  "New \<lparr>CompressionLevel = - 1, ServerAddr = Some ''graylog.example:12201'',
        ClientPacketConn = None\<rparr> (Inr (Byte4 0xDE 0xAD 0xBE 0xEF)) = Inl ErrNoConnection
   \<and> New addresslessConfig (Inr (Byte4 0xDE 0xAD 0xBE 0xEF))
       = Inr \<lparr>instanceID = Byte4 0xDE 0xAD 0xBE 0xEF, addr = ServerAddr addresslessConfig,
              conn = ClientPacketConn addresslessConfig,
              messageCount = 0, compressionLevel = CompressionLevel addresslessConfig\<rparr>"
  using New_checks_connection_only [of "\<lparr>CompressionLevel = - 1,
        ServerAddr = Some ''graylog.example:12201'', ClientPacketConn = None\<rparr>"
      "Inr (Byte4 0xDE 0xAD 0xBE 0xEF)"]
    New_checks_connection_only [of addresslessConfig "Inr (Byte4 0xDE 0xAD 0xBE 0xEF)"
      "Byte4 0xDE 0xAD 0xBE 0xEF"]
  by (simp add: addresslessConfig_def)

text \<open>
  The claim as it stands also makes a missing server address an error. A configuration
  without a server address yields a client.
\<close>

theorem New_accepts_missing_address:
  "ServerAddr addresslessConfig = None
   \<and> New addresslessConfig (Inr (Byte4 0xDE 0xAD 0xBE 0xEF))
       = Inr \<lparr>instanceID = Byte4 0xDE 0xAD 0xBE 0xEF, addr = None, conn = Some acceptAll,
              messageCount = 0, compressionLevel = - 1\<rparr>"
  by (simp add: addresslessConfig_def New_def NoCompression_def DefaultCompression_def
      BestCompression_def BestSpeed_def)

subsection \<open>A line of whitespace\<close>

lemma DecodeRune_ascii:
  assumes "s \<noteq> []" and "uint (s ! 0) < RuneSelf"
  shows "DecodeRune s = (uint (s ! 0), 1)"
proof -
  from assms(2) have "s ! 0 < 0x80"
    by (simp add: RuneSelf_def word_less_def)
  with assms(1) show ?thesis
    by (simp add: DecodeRune_def Let_def first_def)
qed

lemma indexFunc_all:
  "\<forall>r \<in> set (Runes (drop start s)). f r \<Longrightarrow> indexFunc s f False start = None"
proof (induction "length s - start" arbitrary: start rule: less_induct)
  case less
  show ?case
  proof (cases "start < length s")
    case False
    then show ?thesis
      by (subst indexFunc.simps) simp
  next
    case True
    let ?t = "drop start s"
    from True have ne: "?t \<noteq> []" and hd: "?t ! 0 = s ! start"
      by simp_all
    define d where "d = (if uint (s ! start) \<ge> RuneSelf then DecodeRune ?t else (uint (s ! start), 1))"
    have d: "d = DecodeRune ?t"
    proof (cases "uint (s ! start) \<ge> RuneSelf")
      case True
      then show ?thesis by (simp add: d_def)
    next
      case False
      with DecodeRune_ascii [OF ne] hd show ?thesis
        by (simp add: d_def)
    qed
    have R: "Runes ?t = fst d # Runes (drop (start + snd d) s)"
      using ne by (subst Runes.simps) (simp add: d add.commute)
    with less.prems have fd: "f (fst d)" and rest: "\<forall>r \<in> set (Runes (drop (start + snd d) s)). f r"
      by simp_all
    have "0 < snd d"
      using DecodeRune_size_pos [OF ne] by (simp add: d)
    with True have "length s - (start + snd d) < length s - start"
      by simp
    from less.hyps [OF this rest] have "indexFunc s f False (start + snd d) = None" .
    with True fd show ?thesis
      by (subst indexFunc.simps) (simp add: Let_def d_def [symmetric])
  qed
qed

lemma TrimFunc_all:
  assumes "\<forall>r \<in> set (Runes s). f r"
  shows "TrimFunc s f = []"
proof -
  from assms have "indexFunc s f False 0 = None"
    by (intro indexFunc_all) simp
  then have "TrimLeftFunc s f = []"
    by (simp add: TrimLeftFunc_def)
  moreover have "TrimRightFunc [] f = []"
    by (simp add: TrimRightFunc_def split: option.split)
  ultimately show ?thesis
    by (simp add: TrimFunc_def)
qed

lemma chunkCount_one: "0 < L \<Longrightarrow> L \<le> 1420 \<Longrightarrow> chunkCount L = 1"
  by (cases "L = 1420") (simp_all add: chunkCount_eq)

lemma Runes_newline: "Runes [0x0A] = [0x0A]"
  by code_simp

text \<open>
  Claim C10. For every input that ends with a newline and whose runes are all Unicode
  whitespace (the single byte \<open>0x0A\<close> is one), \<^verbatim>\<open>Write\<close> passes the validation and trims the
  payload to the empty slice. The compressor, given the empty payload, consumes 0 bytes
  and writes a stream that is not empty and fits one chunk (as gzip does: a header and
  a trailer). \<^verbatim>\<open>Write\<close> hands exactly one packet to the connection, with index 0 and
  count 1, and when the connection takes it, returns \<^verbatim>\<open>(0, nil)\<close>.
\<close>

theorem whitespace_only_line_sends_one_chunk:
  assumes "HasSuffix p [0x0A]" and "\<forall>r \<in> set (Runes p). IsSpace r"
    and "NewWriterLevel G (compressionLevel gl) = Some z0"
    and "gzWrite G z0 [] = (z1, o1, 0, err)"
    and "failure err = None"
    and "gzClose G z1 = (z2, o2)"
    and "0 < length (o1 @ o2)" and "length (o1 @ o2) \<le> 1420"
    and "conn gl = Some w"
    and "pkt = [0x1E, 0x0F] @ bytes4 (instanceID gl) @ PutUint32 (messageCount gl + 1)
           @ [0, 1] @ o1 @ o2"
  shows "p \<noteq> [] \<and> TrimFunc p IsSpace = []
    \<and> snd (snd (Write G gl sent p)) = sent @ [pkt]
    \<and> (w sent pkt (addr gl) = None \<longrightarrow> fst (Write G gl sent p) = Return 0 None)"
proof -
  let ?b = "o1 @ o2"
  have ne: "p \<noteq> []"
    using assms(1) by (simp add: HasSuffix_newline)
  have t: "TrimFunc p IsSpace = []"
    using assms(2) by (rule TrimFunc_all)
  have one: "chunkCount (length ?b) = 1"
    using assms(7,8) by (rule chunkCount_one)
  then have le: "chunkCount (length ?b) \<le> maxChunkCount"
    by (simp add: maxChunkCount_def)
  have w: "gzWrite G z0 (TrimFunc p IsSpace) = (z1, o1, 0, err)"
    using assms(4) by (simp only: t)
  have pk: "packets (fst (messageID gl)) (chunkCount (length ?b)) ?b = [pkt]"
    unfolding one using assms(8)
    by (simp add: packets_explicit messageID_fst assms(10))
  have W: "Write G gl sent p =
      (case firstReject w (addr gl) sent [pkt] of
         None \<Rightarrow> (Return 0 None, snd (messageID gl), sent @ [pkt])
       | Some (k, e) \<Rightarrow> (Return 0 (Some (ErrWriting e)), snd (messageID gl),
           sent @ take (k + 1) [pkt]))"
    using Write_send [OF ne assms(1,3) w assms(6,5) le assms(9), of sent] unfolding pk .
  show ?thesis
  proof (cases "w sent pkt (addr gl)")
    case None
    with W show ?thesis
      by (simp add: ne t)
  next
    case (Some e)
    with W show ?thesis
      by (simp add: ne t)
  qed
qed

theorem whitespace_only_line_sends_one_chunk_witness:
  "TrimFunc [0x0A] IsSpace = []
   \<and> snd (snd (Write storedGzip exampleClient [] [0x0A]))
       = [[0x1E, 0x0F, 0xDE, 0xAD, 0xBE, 0xEF, 1, 0, 0, 0, 0, 1, 0x1f, 0x8b, 0x00]]
   \<and> fst (Write storedGzip exampleClient [] [0x0A]) = Return 0 None"
proof -
  have s: "HasSuffix [0x0A] [0x0A]"
    by (simp add: HasSuffix_def)
  have r: "\<forall>r \<in> set (Runes [0x0A]). IsSpace r"
    by (simp add: Runes_newline IsSpace_def MaxLatin1_def)
  have n: "NewWriterLevel storedGzip (compressionLevel exampleClient) = Some 0"
    by (simp add: storedGzip_def exampleClient_def)
  have w: "gzWrite storedGzip 0 [] = (0, [0x1f, 0x8b], 0, None)"
    by (simp add: storedGzip_def)
  have f: "failure None = None"
    by (simp add: failure_def)
  have c: "gzClose storedGzip 0 = (1, [0x00])"
    by (simp add: storedGzip_def)
  have l: "0 < length ([0x1f, 0x8b] @ [0x00 :: byte])" "length ([0x1f, 0x8b] @ [0x00 :: byte]) \<le> 1420"
    by simp_all
  have cn: "conn exampleClient = Some acceptAll"
    by (simp add: exampleClient_def)
  have pk: "[0x1E, 0x0F, 0xDE, 0xAD, 0xBE, 0xEF, 1, 0, 0, 0, 0, 1, 0x1f, 0x8b, 0x00]
      = [0x1E, 0x0F] @ bytes4 (instanceID exampleClient)
        @ PutUint32 (messageCount exampleClient + 1) @ [0, 1] @ [0x1f, 0x8b] @ [0x00]"
    by (simp add: exampleClient_def PutUint32_def)
  from whitespace_only_line_sends_one_chunk [OF s r n w f c l cn pk, of "[]"]
  show ?thesis
    by (simp add: acceptAll_def)
qed

subsection \<open>The buffer and the compressor between two messages\<close>

lemma sendChunks_completes:
  assumes "fst (sendChunks c a ident count 0 b sent) = None"
  shows "snd (snd (sendChunks c a ident count 0 b sent)) = sent @ packets ident count b"
proof (cases c)
  case None
  show ?thesis
  proof (cases "count = 0")
    case True
    then show ?thesis
      by (simp add: sendChunks_done packets_def)
  next
    case False
    then have "0 < count"
      by simp
    from sendChunks_None [OF this, of a ident b sent] None assms show ?thesis
      by simp
  qed
next
  case (Some w)
  from sendChunks_Some [of 0 count w a ident b sent]
  have loop: "sendChunks (Some w) a ident count 0 b sent =
      (case firstReject w a sent (map (packetAt ident count b) [0..<count]) of
        None \<Rightarrow> (None, drop (count * maxChunkSize) b,
                  sent @ map (packetAt ident count b) [0..<count])
      | Some (k, e) \<Rightarrow> (Some (Return 0 (Some (ErrWriting e))),
                  drop ((0 + k + 1) * maxChunkSize) b,
                  sent @ map (packetAt ident count b) [0..<0 + k + 1]))"
    by simp
  show ?thesis
  proof (cases "firstReject w a sent (map (packetAt ident count b) [0..<count])")
    case None
    with loop Some show ?thesis
      by (simp add: packets_def)
  next
    case Some': (Some ke)
    with loop Some assms show ?thesis
      by (simp split: prod.splits)
  qed
qed

lemma sendChunks_exit:
  assumes "fst (sendChunks c a ident count 0 b sent) = Some r"
  shows "r \<noteq> Return n None"
proof (cases c)
  case None
  show ?thesis
  proof (cases "count = 0")
    case True
    with assms show ?thesis
      by (simp add: sendChunks_done)
  next
    case False
    then have "0 < count"
      by simp
    from sendChunks_None [OF this, of a ident b sent] None assms show ?thesis
      by auto
  qed
next
  case (Some w)
  from sendChunks_Some [of 0 count w a ident b sent]
  have loop: "sendChunks (Some w) a ident count 0 b sent =
      (case firstReject w a sent (map (packetAt ident count b) [0..<count]) of
        None \<Rightarrow> (None, drop (count * maxChunkSize) b,
                  sent @ map (packetAt ident count b) [0..<count])
      | Some (k, e) \<Rightarrow> (Some (Return 0 (Some (ErrWriting e))),
                  drop ((0 + k + 1) * maxChunkSize) b,
                  sent @ map (packetAt ident count b) [0..<0 + k + 1]))"
    by simp
  with Some assms show ?thesis
    by (auto split: option.splits prod.splits)
qed

lemma Write_mux_state:
  assumes "p \<noteq> []" and "HasSuffix p [0x0A]" and "gl_zip gl = Some z"
  shows "gl_buf (fst (snd (Write_mux G gl sent p))) = []
    \<and> gl_zip (fst (snd (Write_mux G gl sent p)))
        = Some (gzReset G (fst (gzClose G (fst (gzWrite G z (TrimFunc p IsSpace))))))"
  using assms
  by (simp add: Write_mux_def Write_mux_deferred_def Write_mux_body_def Let_def messageID_snd
      split: option.split)

lemma Write_mux_invalid:
  assumes "p = [] \<or> \<not> HasSuffix p [0x0A]"
  shows "fst (snd (Write_mux G gl sent p)) = gl \<and> snd (snd (Write_mux G gl sent p)) = sent"
  using assms by (auto simp: Write_mux_def)

lemma Write_mux_success:
  assumes "p \<noteq> []" and "HasSuffix p [0x0A]" and "gl_zip gl = Some z"
    and "fst (Write_mux G gl sent p) = Return n' None"
  shows "snd (snd (Write_mux G gl sent p))
      = sent @ packets (fst (messageID gl))
          (chunkCount (length (gl_buf gl @ gzipBytes G z (TrimFunc p IsSpace))))
          (gl_buf gl @ gzipBytes G z (TrimFunc p IsSpace))
    \<and> chunkCount (length (gl_buf gl @ gzipBytes G z (TrimFunc p IsSpace))) \<le> maxChunkCount"
proof -
  define w where "w = gzWrite G z (TrimFunc p IsSpace)"
  define b where "b = gl_buf gl @ gzipBytes G z (TrimFunc p IsSpace)"
  define count where "count = chunkCount (length b)"
  define l where "l = sendChunks (conn gl) (addr gl) (fst (messageID gl)) count 0 b sent"
  have b: "gl_buf gl @ fst (snd w) @ snd (gzClose G (fst w)) = b"
    by (simp add: b_def w_def gzipBytes_def)
  have R: "fst (Write_mux G gl sent p) =
      (case failure (snd (snd (snd w))) of
         Some e \<Rightarrow> Return 0 (Some e)
       | None \<Rightarrow>
           if count > maxChunkCount
           then Return 0 (Some (ErrExceedsMaxSize (length b) (maxChunkCount * maxChunkSize)))
           else (case fst l of Some r \<Rightarrow> r | None \<Rightarrow> Return (fst (snd (snd w))) None))"
    using assms(1-3)
    by (simp add: Write_mux_def Write_mux_deferred_def Write_mux_body_def Let_def messageID_fst
        messageID_snd w_def [symmetric] b l_def count_def del: length_append split: option.split)
  have S: "snd (snd (Write_mux G gl sent p)) =
      (case failure (snd (snd (snd w))) of
         Some e \<Rightarrow> sent
       | None \<Rightarrow> if count > maxChunkCount then sent else snd (snd l))"
    using assms(1-3)
    by (simp add: Write_mux_def Write_mux_deferred_def Write_mux_body_def Let_def messageID_fst
        messageID_snd w_def [symmetric] b l_def count_def del: length_append split: option.split)
  have "snd (snd (Write_mux G gl sent p)) = sent @ packets (fst (messageID gl)) count b
      \<and> count \<le> maxChunkCount"
  proof (cases "failure (snd (snd (snd w)))")
    case (Some e)
    with R assms(4) show ?thesis
      by simp
  next
    case None
    show ?thesis
    proof (cases "count > maxChunkCount")
      case True
      with R None assms(4) show ?thesis
        by simp
    next
      case False
      show ?thesis
      proof (cases "fst l")
        case None': None
        then have "snd (snd l) = sent @ packets (fst (messageID gl)) count b"
          unfolding l_def by (rule sendChunks_completes)
        with S None False show ?thesis
          by simp
      next
        case (Some r)
        then have "r \<noteq> Return n' None"
          unfolding l_def by (rule sendChunks_exit)
        with R None False Some assms(4) show ?thesis
          by simp
      qed
    qed
  qed
  then show ?thesis
    by (simp only: count_def b_def)
qed

lemma msgPool_Get_core:
  "instanceID (snd (msgPool_Get G gl pick)) = instanceID gl
   \<and> messageCount (snd (msgPool_Get G gl pick)) = messageCount gl
   \<and> conn (snd (msgPool_Get G gl pick)) = conn gl
   \<and> addr (snd (msgPool_Get G gl pick)) = addr gl"
  by (simp add: msgPool_Get_def)

lemma newMessage_msg:
  "fst (newMessage G gl pick)
     = (fst (msgPool_Get G gl pick))\<lparr>msg_id := fst (messageID gl), msg_conn := conn gl,
          msg_addr := addr gl\<rparr>"
  by (simp add: newMessage_def Let_def messageID_fst messageID_snd msgPool_Get_core)

lemma newMessage_pool:
  "msgPool (snd (newMessage G gl pick)) = msgPool (snd (msgPool_Get G gl pick))"
  by (simp add: newMessage_def Let_def messageID_snd)

lemma message_Write_zip:
  assumes "msg_zip msg = Some z"
  shows "msg_zip (fst (snd (message_Write G msg sent p)))
      = Some (fst (gzClose G (fst (gzWrite G z (TrimFunc p IsSpace)))))
    \<and> msg_conn (fst (snd (message_Write G msg sent p))) = msg_conn msg
    \<and> msg_addr (fst (snd (message_Write G msg sent p))) = msg_addr msg"
  using assms by (simp add: message_Write_def Let_def split: option.split)

lemma message_reset_eq:
  "msg_conn m = c \<Longrightarrow> msg_addr m = a \<Longrightarrow>
   m\<lparr>msg_buf := b, msg_zip := z, msg_id := i\<rparr>
     = \<lparr>msg_buf = b, msg_zip = z, msg_id = i, msg_conn = c, msg_addr = a\<rparr>"
  by (cases m) simp

lemma Write_pool_state:
  assumes "p \<noteq> []" and "HasSuffix p [0x0A]"
    and "msg_zip (fst (msgPool_Get G gl pick)) = Some z"
  shows "msgPool (fst (snd (Write_pool G gl sent pick p)))
      = \<lparr>msg_buf = [],
         msg_zip = Some (gzReset G (fst (gzClose G (fst (gzWrite G z (TrimFunc p IsSpace)))))),
         msg_id = replicate 8 0, msg_conn = conn gl, msg_addr = addr gl\<rparr>
        # msgPool (snd (msgPool_Get G gl pick))"
proof -
  define msg where "msg = fst (newMessage G gl pick)"
  define r where "r = message_Write G msg sent p"
  have z: "msg_zip msg = Some z" and c: "msg_conn msg = conn gl" and a: "msg_addr msg = addr gl"
    using assms(3) by (simp_all add: msg_def newMessage_msg)
  from message_Write_zip [OF z, of G sent p]
  have "freeMessage G (snd (newMessage G gl pick)) (fst (snd r))
      = Some (msgPool_Put (snd (newMessage G gl pick))
          \<lparr>msg_buf = [],
           msg_zip = Some (gzReset G (fst (gzClose G (fst (gzWrite G z (TrimFunc p IsSpace)))))),
           msg_id = replicate 8 0, msg_conn = conn gl, msg_addr = addr gl\<rparr>)"
    by (simp add: freeMessage_def Let_def r_def c a message_reset_eq)
  with assms(1,2) show ?thesis
    by (simp add: Write_pool_def Let_def msg_def [symmetric] r_def [symmetric] msgPool_Put_def
        newMessage_pool)
qed

lemma Write_pool_invalid:
  assumes "p = [] \<or> \<not> HasSuffix p [0x0A]"
  shows "fst (snd (Write_pool G gl sent pick p)) = gl
    \<and> snd (snd (Write_pool G gl sent pick p)) = sent"
  using assms by (auto simp: Write_pool_def)

lemma message_Write_success:
  assumes "msg_zip msg = Some z"
    and "fst (message_Write G msg sent p) = Return n' None"
  shows "snd (snd (message_Write G msg sent p))
      = sent @ packets (msg_id msg)
          (chunkCount (length (msg_buf msg @ gzipBytes G z (TrimFunc p IsSpace))))
          (msg_buf msg @ gzipBytes G z (TrimFunc p IsSpace))
    \<and> chunkCount (length (msg_buf msg @ gzipBytes G z (TrimFunc p IsSpace))) \<le> maxChunkCount"
proof -
  define w where "w = gzWrite G z (TrimFunc p IsSpace)"
  define b where "b = msg_buf msg @ gzipBytes G z (TrimFunc p IsSpace)"
  define count where "count = chunkCount (length b)"
  define l where "l = sendChunks (msg_conn msg) (msg_addr msg) (msg_id msg) count 0 b sent"
  have b: "msg_buf msg @ fst (snd w) @ snd (gzClose G (fst w)) = b"
    by (simp add: b_def w_def gzipBytes_def)
  have R: "fst (message_Write G msg sent p) =
      (case failure (snd (snd (snd w))) of
         Some e \<Rightarrow> Return 0 (Some e)
       | None \<Rightarrow>
           if count > maxChunkCount
           then Return 0 (Some (ErrExceedsMaxSize (length b) (maxChunkCount * maxChunkSize)))
           else (case fst l of Some r \<Rightarrow> r | None \<Rightarrow> Return (fst (snd (snd w))) None))"
    using assms(1)
    by (simp add: message_Write_def Let_def w_def [symmetric] b l_def count_def
        del: length_append split: option.split)
  have S: "snd (snd (message_Write G msg sent p)) =
      (case failure (snd (snd (snd w))) of
         Some e \<Rightarrow> sent
       | None \<Rightarrow> if count > maxChunkCount then sent else snd (snd l))"
    using assms(1)
    by (simp add: message_Write_def Let_def w_def [symmetric] b l_def count_def
        del: length_append split: option.split)
  have "snd (snd (message_Write G msg sent p)) = sent @ packets (msg_id msg) count b
      \<and> count \<le> maxChunkCount"
  proof (cases "failure (snd (snd (snd w)))")
    case (Some e)
    with R assms(2) show ?thesis
      by simp
  next
    case None
    show ?thesis
    proof (cases "count > maxChunkCount")
      case True
      with R None assms(2) show ?thesis
        by simp
    next
      case False
      show ?thesis
      proof (cases "fst l")
        case None': None
        then have "snd (snd l) = sent @ packets (msg_id msg) count b"
          unfolding l_def by (rule sendChunks_completes)
        with S None False show ?thesis
          by simp
      next
        case (Some r)
        then have "r \<noteq> Return n' None"
          unfolding l_def by (rule sendChunks_exit)
        with R None False Some assms(2) show ?thesis
          by simp
      qed
    qed
  qed
  then show ?thesis
    by (simp only: count_def b_def)
qed

lemma Write_pool_success:
  assumes "p \<noteq> []" and "HasSuffix p [0x0A]"
    and "msg_zip (fst (msgPool_Get G gl pick)) = Some z"
    and "fst (Write_pool G gl sent pick p) = Return n' None"
  shows "snd (snd (Write_pool G gl sent pick p))
      = sent @ packets (fst (messageID gl))
          (chunkCount (length (msg_buf (fst (msgPool_Get G gl pick))
             @ gzipBytes G z (TrimFunc p IsSpace))))
          (msg_buf (fst (msgPool_Get G gl pick)) @ gzipBytes G z (TrimFunc p IsSpace))
    \<and> chunkCount (length (msg_buf (fst (msgPool_Get G gl pick))
          @ gzipBytes G z (TrimFunc p IsSpace))) \<le> maxChunkCount"
proof -
  define msg where "msg = fst (newMessage G gl pick)"
  define r where "r = message_Write G msg sent p"
  have z: "msg_zip msg = Some z" and i: "msg_id msg = fst (messageID gl)"
    and b: "msg_buf msg = msg_buf (fst (msgPool_Get G gl pick))"
    using assms(3) by (simp_all add: msg_def newMessage_msg)
  have W: "fst (Write_pool G gl sent pick p)
        = (case freeMessage G (snd (newMessage G gl pick)) (fst (snd r)) of
             None \<Rightarrow> Panic | Some gl' \<Rightarrow> fst r)"
    and S: "snd (snd (Write_pool G gl sent pick p)) = snd (snd r)"
    using assms(1,2)
    by (simp_all add: Write_pool_def Let_def msg_def [symmetric] r_def [symmetric]
        split: option.split)
  from W assms(4) have "fst r = Return n' None"
    by (simp split: option.splits)
  from message_Write_success [OF z this [unfolded r_def]] S show ?thesis
    by (simp only: r_def i b)
qed

lemma reassemble_new_packets:
  assumes "sent' = sent @ packets (fst (messageID gl)) (chunkCount (length b)) b"
    and "chunkCount (length b) \<le> maxChunkCount"
  shows "reassemble (drop (length sent) sent') = b"
proof -
  from assms(2) have "chunkCount (length b) \<le> 256"
    by (simp add: maxChunkCount_def)
  from reassemble_packets [OF messageID_length this] assms(1) show ?thesis
    by simp
qed

text \<open>
  Claim C5. In the second version (one buffer and one compressor under a mutex) and in
  the third (a pool of messages), a call of \<^verbatim>\<open>Write\<close> on a valid input \<open>A\<close> leaves the
  buffer empty and the compressor reset, however the call ends: with a nil error, with
  an error of the compressor, of the size check or of the connection, or with a panic of
  the connection. In the second version this is the state of the client after the call;
  in the third it is the message put back at the head of the pool, its identifier
  zeroed. A call that the validation turns away (empty input, no final newline) returns
  before the buffer and the compressor are taken, and leaves the client as it was.
  Consequently, when a second input \<open>B\<close> is written through the same buffer and
  compressor and \<^verbatim>\<open>Write\<close> returns a nil error, the payloads of the packets of \<open>B\<close>,
  reassembled, are exactly the bytes the reset compressor writes for the trimmed \<open>B\<close>,
  with nothing of \<open>A\<close> before them, and they decompress to the trimmed \<open>B\<close>. \<open>z\<close> is the
  state of the compressor before \<open>A\<close> is written, \<open>zr\<close> its state after the reset, and
  \<open>gunzip\<close> any function that inverts the reset compressor on the trimmed \<open>B\<close>.
\<close>

theorem reused_resource_is_reset:
  assumes "A \<noteq> []" and "HasSuffix A [0x0A]" and "B \<noteq> []" and "HasSuffix B [0x0A]"
    and "zr = gzReset G (fst (gzClose G (fst (gzWrite G z (TrimFunc A IsSpace)))))"
    and "gunzip (gzipBytes G zr (TrimFunc B IsSpace)) = Some (TrimFunc B IsSpace)"
  shows
    "(gl_zip gl = Some z \<longrightarrow>
       (let r1 = Write_mux G gl sent A; gl1 = fst (snd r1); sent1 = snd (snd r1);
            r2 = Write_mux G gl1 sent1 B
        in gl_buf gl1 = [] \<and> gl_zip gl1 = Some zr
           \<and> (\<forall>n. fst r2 = Return n None \<longrightarrow>
                reassemble (drop (length sent1) (snd (snd r2)))
                  = gzipBytes G zr (TrimFunc B IsSpace)
                \<and> gunzip (reassemble (drop (length sent1) (snd (snd r2))))
                  = Some (TrimFunc B IsSpace))))
     \<and> (msg_zip (fst (msgPool_Get G pl pick)) = Some z \<longrightarrow>
       (let r1 = Write_pool G pl sent pick A; pl1 = fst (snd r1); sent1 = snd (snd r1);
            r2 = Write_pool G pl1 sent1 0 B
        in msgPool pl1
             = \<lparr>msg_buf = [], msg_zip = Some zr, msg_id = replicate 8 0,
                msg_conn = conn pl, msg_addr = addr pl\<rparr>
               # msgPool (snd (msgPool_Get G pl pick))
           \<and> (\<forall>n. fst r2 = Return n None \<longrightarrow>
                reassemble (drop (length sent1) (snd (snd r2)))
                  = gzipBytes G zr (TrimFunc B IsSpace)
                \<and> gunzip (reassemble (drop (length sent1) (snd (snd r2))))
                  = Some (TrimFunc B IsSpace))))
     \<and> (p = [] \<or> \<not> HasSuffix p [0x0A] \<longrightarrow>
          fst (snd (Write_mux G gl sent p)) = gl
          \<and> fst (snd (Write_pool G pl sent pick p)) = pl)"
proof (intro conjI impI)
  assume z: "gl_zip gl = Some z"
  define gl1 where "gl1 = fst (snd (Write_mux G gl sent A))"
  define sent1 where "sent1 = snd (snd (Write_mux G gl sent A))"
  define r2 where "r2 = Write_mux G gl1 sent1 B"
  from Write_mux_state [OF assms(1,2) z, of G sent]
  have clean: "gl_buf gl1 = []" "gl_zip gl1 = Some zr"
    by (simp_all add: gl1_def assms(5))
  have "\<forall>n. fst r2 = Return n None \<longrightarrow>
      reassemble (drop (length sent1) (snd (snd r2))) = gzipBytes G zr (TrimFunc B IsSpace)
      \<and> gunzip (reassemble (drop (length sent1) (snd (snd r2)))) = Some (TrimFunc B IsSpace)"
  proof (intro allI impI)
    fix n
    assume "fst r2 = Return n None"
    from Write_mux_success [OF assms(3,4) clean(2) this [unfolded r2_def]]
    have "reassemble (drop (length sent1) (snd (snd r2))) = gzipBytes G zr (TrimFunc B IsSpace)"
      unfolding clean(1) append_Nil r2_def by (intro reassemble_new_packets) simp_all
    with assms(6) show "reassemble (drop (length sent1) (snd (snd r2)))
        = gzipBytes G zr (TrimFunc B IsSpace)
      \<and> gunzip (reassemble (drop (length sent1) (snd (snd r2)))) = Some (TrimFunc B IsSpace)"
      by simp
  qed
  with clean show "let r1 = Write_mux G gl sent A; gl1 = fst (snd r1); sent1 = snd (snd r1);
            r2 = Write_mux G gl1 sent1 B
        in gl_buf gl1 = [] \<and> gl_zip gl1 = Some zr
           \<and> (\<forall>n. fst r2 = Return n None \<longrightarrow>
                reassemble (drop (length sent1) (snd (snd r2)))
                  = gzipBytes G zr (TrimFunc B IsSpace)
                \<and> gunzip (reassemble (drop (length sent1) (snd (snd r2))))
                  = Some (TrimFunc B IsSpace))"
    unfolding Let_def gl1_def sent1_def r2_def by blast
next
  assume z: "msg_zip (fst (msgPool_Get G pl pick)) = Some z"
  define pl1 where "pl1 = fst (snd (Write_pool G pl sent pick A))"
  define sent1 where "sent1 = snd (snd (Write_pool G pl sent pick A))"
  define r2 where "r2 = Write_pool G pl1 sent1 0 B"
  from Write_pool_state [OF assms(1,2) z, of sent]
  have pool: "msgPool pl1
      = \<lparr>msg_buf = [], msg_zip = Some zr, msg_id = replicate 8 0,
         msg_conn = conn pl, msg_addr = addr pl\<rparr> # msgPool (snd (msgPool_Get G pl pick))"
    by (simp add: pl1_def assms(5))
  then have get: "msg_zip (fst (msgPool_Get G pl1 0)) = Some zr"
      "msg_buf (fst (msgPool_Get G pl1 0)) = []"
    by (simp_all add: msgPool_Get_def)
  have "\<forall>n. fst r2 = Return n None \<longrightarrow>
      reassemble (drop (length sent1) (snd (snd r2))) = gzipBytes G zr (TrimFunc B IsSpace)
      \<and> gunzip (reassemble (drop (length sent1) (snd (snd r2)))) = Some (TrimFunc B IsSpace)"
  proof (intro allI impI)
    fix n
    assume "fst r2 = Return n None"
    from Write_pool_success [OF assms(3,4) get(1) this [unfolded r2_def]]
    have "reassemble (drop (length sent1) (snd (snd r2))) = gzipBytes G zr (TrimFunc B IsSpace)"
      unfolding get(2) append_Nil r2_def by (intro reassemble_new_packets) simp_all
    with assms(6) show "reassemble (drop (length sent1) (snd (snd r2)))
        = gzipBytes G zr (TrimFunc B IsSpace)
      \<and> gunzip (reassemble (drop (length sent1) (snd (snd r2)))) = Some (TrimFunc B IsSpace)"
      by simp
  qed
  with pool show "let r1 = Write_pool G pl sent pick A; pl1 = fst (snd r1); sent1 = snd (snd r1);
            r2 = Write_pool G pl1 sent1 0 B
        in msgPool pl1
             = \<lparr>msg_buf = [], msg_zip = Some zr, msg_id = replicate 8 0,
                msg_conn = conn pl, msg_addr = addr pl\<rparr>
               # msgPool (snd (msgPool_Get G pl pick))
           \<and> (\<forall>n. fst r2 = Return n None \<longrightarrow>
                reassemble (drop (length sent1) (snd (snd r2)))
                  = gzipBytes G zr (TrimFunc B IsSpace)
                \<and> gunzip (reassemble (drop (length sent1) (snd (snd r2))))
                  = Some (TrimFunc B IsSpace))"
    unfolding Let_def pl1_def sent1_def r2_def by blast
next
  assume "p = [] \<or> \<not> HasSuffix p [0x0A]"
  then show "fst (snd (Write_mux G gl sent p)) = gl"
    by (simp add: Write_mux_invalid)
next
  assume "p = [] \<or> \<not> HasSuffix p [0x0A]"
  then show "fst (snd (Write_pool G pl sent pick p)) = pl"
    by (simp add: Write_pool_invalid)
qed

theorem reused_resource_is_reset_witness:
  "gl_buf (fst (snd (Write_mux storedGzip exampleClientMux [] [0x66, 0x6F, 0x6F, 0x0A]))) = []
   \<and> gl_zip (fst (snd (Write_mux storedGzip exampleClientMux [] [0x66, 0x6F, 0x6F, 0x0A]))) = Some 0
   \<and> storedGunzip (reassemble (drop (length (snd (snd (Write_mux storedGzip exampleClientMux [] [0x66, 0x6F, 0x6F, 0x0A])))) (snd (snd (Write_mux storedGzip (fst (snd (Write_mux storedGzip exampleClientMux [] [0x66, 0x6F, 0x6F, 0x0A]))) (snd (snd (Write_mux storedGzip exampleClientMux [] [0x66, 0x6F, 0x6F, 0x0A]))) [0x62, 0x61, 0x72, 0x0A])))))
       = Some [0x62, 0x61, 0x72]
   \<and> msgPool (fst (snd (Write_pool storedGzip exampleClientPool [] 0 [0x66, 0x6F, 0x6F, 0x0A])))
       = [\<lparr>msg_buf = [], msg_zip = Some 0, msg_id = replicate 8 0,
           msg_conn = Some acceptAll, msg_addr = Some ''graylog.example:12201''\<rparr>]
   \<and> storedGunzip (reassemble (drop (length (snd (snd (Write_pool storedGzip exampleClientPool [] 0 [0x66, 0x6F, 0x6F, 0x0A])))) (snd (snd (Write_pool storedGzip (fst (snd (Write_pool storedGzip exampleClientPool [] 0 [0x66, 0x6F, 0x6F, 0x0A]))) (snd (snd (Write_pool storedGzip exampleClientPool [] 0 [0x66, 0x6F, 0x6F, 0x0A]))) 0 [0x62, 0x61, 0x72, 0x0A])))))
       = Some [0x62, 0x61, 0x72]"
proof -
  have a: "[0x66, 0x6F, 0x6F, 0x0A] \<noteq> ([] :: byte list)" "HasSuffix [0x66, 0x6F, 0x6F, 0x0A] [0x0A]"
    and b: "[0x62, 0x61, 0x72, 0x0A] \<noteq> ([] :: byte list)" "HasSuffix [0x62, 0x61, 0x72, 0x0A] [0x0A]"
    by (simp_all add: HasSuffix_def)
  have tb: "TrimFunc [0x62, 0x61, 0x72, 0x0A] IsSpace = [0x62, 0x61, 0x72]"
    by code_simp
  have zr: "0 = gzReset storedGzip
      (fst (gzClose storedGzip (fst (gzWrite storedGzip 0 (TrimFunc [0x66, 0x6F, 0x6F, 0x0A] IsSpace)))))"
    by (simp add: storedGzip_def)
  have law: "storedGunzip (gzipBytes storedGzip 0 (TrimFunc [0x62, 0x61, 0x72, 0x0A] IsSpace))
      = Some (TrimFunc [0x62, 0x61, 0x72, 0x0A] IsSpace)"
    by (simp add: tb gzipBytes_def storedGzip_def storedGunzip_def)
  have m: "gl_zip exampleClientMux = Some 0"
    by (simp add: exampleClientMux_def)
  have g: "msg_zip (fst (msgPool_Get storedGzip exampleClientPool 0)) = Some 0"
    and rest: "msgPool (snd (msgPool_Get storedGzip exampleClientPool 0)) = []"
    and ca: "conn exampleClientPool = Some acceptAll"
      "addr exampleClientPool = Some ''graylog.example:12201''"
    by (simp_all add: msgPool_Get_def msgPool_New_def exampleClientPool_def storedGzip_def)
  have m2: "fst (Write_mux storedGzip (fst (snd (Write_mux storedGzip exampleClientMux [] [0x66, 0x6F, 0x6F, 0x0A]))) (snd (snd (Write_mux storedGzip exampleClientMux [] [0x66, 0x6F, 0x6F, 0x0A]))) [0x62, 0x61, 0x72, 0x0A]) = Return 3 None"
    by code_simp
  have p2: "fst (Write_pool storedGzip (fst (snd (Write_pool storedGzip exampleClientPool [] 0 [0x66, 0x6F, 0x6F, 0x0A]))) (snd (snd (Write_pool storedGzip exampleClientPool [] 0 [0x66, 0x6F, 0x6F, 0x0A]))) 0 [0x62, 0x61, 0x72, 0x0A]) = Return 3 None"
    by code_simp
  note T = reused_resource_is_reset [where G = storedGzip and gunzip = storedGunzip
      and A = "[0x66, 0x6F, 0x6F, 0x0A]" and B = "[0x62, 0x61, 0x72, 0x0A]" and z = 0 and zr = 0
      and gl = exampleClientMux and pl = exampleClientPool and pick = 0 and sent = "[]"
      and p = "[]", OF a b zr law, unfolded Let_def]
  from T m m2 have "gl_buf (fst (snd (Write_mux storedGzip exampleClientMux [] [0x66, 0x6F, 0x6F, 0x0A]))) = []"
    and "gl_zip (fst (snd (Write_mux storedGzip exampleClientMux [] [0x66, 0x6F, 0x6F, 0x0A]))) = Some 0"
    and "storedGunzip (reassemble (drop (length (snd (snd (Write_mux storedGzip exampleClientMux [] [0x66, 0x6F, 0x6F, 0x0A])))) (snd (snd (Write_mux storedGzip (fst (snd (Write_mux storedGzip exampleClientMux [] [0x66, 0x6F, 0x6F, 0x0A]))) (snd (snd (Write_mux storedGzip exampleClientMux [] [0x66, 0x6F, 0x6F, 0x0A]))) [0x62, 0x61, 0x72, 0x0A])))))
      = Some (TrimFunc [0x62, 0x61, 0x72, 0x0A] IsSpace)"
    by blast+
  moreover from T g p2 have "msgPool (fst (snd (Write_pool storedGzip exampleClientPool [] 0 [0x66, 0x6F, 0x6F, 0x0A])))
      = \<lparr>msg_buf = [], msg_zip = Some 0, msg_id = replicate 8 0,
          msg_conn = conn exampleClientPool, msg_addr = addr exampleClientPool\<rparr>
        # msgPool (snd (msgPool_Get storedGzip exampleClientPool 0))"
    and "storedGunzip (reassemble (drop (length (snd (snd (Write_pool storedGzip exampleClientPool [] 0 [0x66, 0x6F, 0x6F, 0x0A])))) (snd (snd (Write_pool storedGzip (fst (snd (Write_pool storedGzip exampleClientPool [] 0 [0x66, 0x6F, 0x6F, 0x0A]))) (snd (snd (Write_pool storedGzip exampleClientPool [] 0 [0x66, 0x6F, 0x6F, 0x0A]))) 0 [0x62, 0x61, 0x72, 0x0A])))))
      = Some (TrimFunc [0x62, 0x61, 0x72, 0x0A] IsSpace)"
    by blast+
  ultimately show ?thesis
    unfolding tb rest ca by blast
qed

end
